theory Spec2Isabelle
  imports Complex_Main "HOL-Library.Word" "HOL-Library.Multiset"
begin

section \<open>Damping-factor library (hippoComputeField.cu)\<close>

text \<open>
  The kernels are written over the type \<open>real\<close>, which the build binds to \<open>float\<close> or
  \<open>double\<close>.  The embedding reads it as the mathematical reals: every statement below is
  about the arithmetic the code spells out, evaluated exactly, and \<open>EXP\<close> is the
  exponential function.  Reference parameters that receive results become the components
  of the returned tuple, in the order of the parameter list.
\<close>

definition computeDirectFieldDampingFactors :: "real \<Rightarrow> real \<Rightarrow> real \<times> real \<times> real" where
  "computeDirectFieldDampingFactors alpha r =
    (let ar = alpha*r;
         ar2 = ar*ar;
         ar3 = ar2*ar;
         ar4 = ar2*ar2;
         expAR = exp (-ar);
         one = 1;
         fdamp3 = 1 - (1 + ar + ar2*(one/2))*expAR;
         fdamp5 = 1 - (1 + ar + ar2*(one/2) + ar3*(one/6))*expAR;
         fdamp7 = 1 - (1 + ar + ar2*(one/2) + ar3*(one/6) + ar4*(one/30))*expAR
     in (fdamp3, fdamp5, fdamp7))"


section \<open>Device vector types\<close>

text \<open>
  The device vector types: \<open>real3\<close> stands for \<open>float3\<close> and \<open>double3\<close>, \<open>real4\<close> for
  \<open>float4\<close> and \<open>double4\<close>; the selectors carry the arity as a suffix.  Position arrays
  keep the charge in the fourth component, velocity arrays the inverse mass.
\<close>

datatype real3 = make_real3 (x3: real) (y3: real) (z3: real)

datatype real4 = make_real4 (x4: real) (y4: real) (z4: real) (w4: real)

section \<open>Fixed-point accumulation of the field (hippoComputeField.cu, computeField)\<close>

text \<open>
  \<open>fieldBuffers\<close> is an array of \<open>unsigned long long\<close>: three blocks of
  \<open>PADDED_NUM_ATOMS\<close> entries for the x, y and z components.

  The conversion \<open>(long long) v\<close> of a floating-point value truncates toward zero; C++
  defines it only when the truncated value is representable, so the model returns
  \<open>None\<close> outside the range of \<open>long long\<close>.  The following
  \<open>static_cast<unsigned long long>\<close> keeps the bit pattern, which a \<open>64 word\<close> holds for
  both readings.
\<close>

type_synonym fieldBuffers = "64 word list"

definition truncateTowardZero :: "real \<Rightarrow> int" where
  "truncateTowardZero v = (if 0 \<le> v then \<lfloor>v\<rfloor> else \<lceil>v\<rceil>)"

definition castLongLong :: "real \<Rightarrow> 64 word option" where
  "castLongLong v =
    (let t = truncateTowardZero v
     in if - (2^63) \<le> t \<and> t < 2^63 then Some (word_of_int t) else None)"

text \<open>
  One call \<open>atomicAdd(&fieldBuffers[index], static_cast<unsigned long long>((long long)
  (value*0x100000000)))\<close>, written as the request \<open>(index, value)\<close>.  The addition is that
  of the unsigned 64-bit integers, which wraps around.  An index outside the buffer is
  an out-of-bounds write (\<open>None\<close>).
\<close>

definition atomicAddFixed :: "nat \<times> real \<Rightarrow> fieldBuffers \<Rightarrow> fieldBuffers option" where
  "atomicAddFixed req buf =
    (case castLongLong (snd req * 0x100000000) of
       None \<Rightarrow> None
     | Some v \<Rightarrow> if fst req < length buf then Some (buf[fst req := buf ! fst req + v]) else None)"

text \<open>
  What one thread holds when it reaches a "Write results" block: in the first loop
  (tiles with exclusions) the tile coordinates \<open>x\<close>, \<open>y\<close> and its lane \<open>tgx\<close>; in the
  second loop the atom indices \<open>atom1\<close> and \<open>atom2\<close>; in both its own accumulated
  \<open>field\<close> and the entry \<open>localData[threadIdx.x].field\<close>.
\<close>

datatype tileResult =
    ExclusionTile nat nat nat real3 real3
  | InteractionTile nat nat real3 real3

text \<open>The atomic additions of one "Write results" block, in program order.\<close>

fun writeResults :: "nat \<Rightarrow> nat \<Rightarrow> tileResult \<Rightarrow> (nat \<times> real) list" where
  "writeResults TILE_SIZE PADDED_NUM_ATOMS (ExclusionTile x y tgx field localField) =
    (let offset1 = x*TILE_SIZE + tgx
     in [(offset1, x3 field),
         (offset1+PADDED_NUM_ATOMS, y3 field),
         (offset1+2*PADDED_NUM_ATOMS, z3 field)]
        @ (if x \<noteq> y then
             (let offset2 = y*TILE_SIZE + tgx
              in [(offset2, x3 localField),
                  (offset2+PADDED_NUM_ATOMS, y3 localField),
                  (offset2+2*PADDED_NUM_ATOMS, z3 localField)])
           else []))"
| "writeResults TILE_SIZE PADDED_NUM_ATOMS (InteractionTile atom1 atom2 field localField) =
    (let offset1 = atom1
     in [(offset1, x3 field),
         (offset1+PADDED_NUM_ATOMS, y3 field),
         (offset1+2*PADDED_NUM_ATOMS, z3 field)]
        @ (if atom2 < PADDED_NUM_ATOMS then
             (let offset2 = atom2
              in [(offset2, x3 localField),
                  (offset2+PADDED_NUM_ATOMS, y3 localField),
                  (offset2+2*PADDED_NUM_ATOMS, z3 localField)])
           else []))"

text \<open>
  The threads run concurrently and every \<open>atomicAdd\<close> is indivisible, so one run of the
  kernel performs the requests of all write blocks in some order: a list of requests,
  executed from left to right.
\<close>

definition atomicAddStep :: "nat \<times> real \<Rightarrow> fieldBuffers option \<Rightarrow> fieldBuffers option" where
  "atomicAddStep req s = (case s of None \<Rightarrow> None | Some buf \<Rightarrow> atomicAddFixed req buf)"

definition runAtomicAdds :: "(nat \<times> real) list \<Rightarrow> fieldBuffers \<Rightarrow> fieldBuffers option" where
  "runAtomicAdds reqs buf = fold atomicAddStep reqs (Some buf)"

section \<open>System multipole moments (AmoebaCudaKernels.cpp)\<close>

text \<open>The local accumulators of \<open>computeSystemMultipoleMoments\<close>.\<close>

record moments =
  totalCharge :: real
  xdpl :: real
  ydpl :: real
  zdpl :: real
  xxqdp :: real
  xyqdp :: real
  xzqdp :: real
  yxqdp :: real
  yyqdp :: real
  yzqdp :: real
  zxqdp :: real
  zyqdp :: real
  zzqdp :: real

text \<open>First loop: total mass and mass-weighted position sum; an atom with \<open>velm.w \<le> 0\<close> is massless.\<close>

definition centerOfMassStep :: "real4 list \<Rightarrow> real4 list \<Rightarrow> nat \<Rightarrow> real \<times> real3 \<Rightarrow> real \<times> real3" where
  "centerOfMassStep posq velm i acc =
    (let totalMass = fst acc;
         centerOfMass = snd acc;
         mass = (if w4 (velm ! i) > 0 then 1 / w4 (velm ! i) else 0)
     in (totalMass + mass,
         make_real3 (x3 centerOfMass + mass * x4 (posq ! i))
                    (y3 centerOfMass + mass * y4 (posq ! i))
                    (z3 centerOfMass + mass * z4 (posq ! i))))"

definition computeCenterOfMass :: "nat \<Rightarrow> real4 list \<Rightarrow> real4 list \<Rightarrow> real3" where
  "computeCenterOfMass numAtoms posq velm =
    (let acc = fold (centerOfMassStep posq velm) [0..<numAtoms] (0, make_real3 0 0 0);
         totalMass = fst acc;
         centerOfMass = snd acc
     in if totalMass > 0
        then make_real3 (x3 centerOfMass / totalMass) (y3 centerOfMass / totalMass) (z3 centerOfMass / totalMass)
        else centerOfMass)"

definition localCoordinates :: "nat \<Rightarrow> real4 list \<Rightarrow> real3 \<Rightarrow> real4 list" where
  "localCoordinates numAtoms posq centerOfMass =
    map (\<lambda>i. make_real4 (x4 (posq ! i) - x3 centerOfMass)
                         (y4 (posq ! i) - y3 centerOfMass)
                         (z4 (posq ! i) - z3 centerOfMass)
                         (w4 (posq ! i))) [0..<numAtoms]"

text \<open>Second loop: charge, dipole and traced second moments of charges and net dipoles.\<close>

definition momentsStep :: "real4 list \<Rightarrow> real3 list \<Rightarrow> real3 list \<Rightarrow> nat \<Rightarrow> moments \<Rightarrow> moments" where
  "momentsStep posqLocal labDipoleVec inducedDipoleVec i m =
    (let p = posqLocal ! i;
         netDipoleX = x3 (labDipoleVec ! i) + x3 (inducedDipoleVec ! i);
         netDipoleY = y3 (labDipoleVec ! i) + y3 (inducedDipoleVec ! i);
         netDipoleZ = z3 (labDipoleVec ! i) + z3 (inducedDipoleVec ! i)
     in \<lparr> totalCharge = totalCharge m + w4 p,
          xdpl = xdpl m + (x4 p * w4 p + netDipoleX),
          ydpl = ydpl m + (y4 p * w4 p + netDipoleY),
          zdpl = zdpl m + (z4 p * w4 p + netDipoleZ),
          xxqdp = xxqdp m + (x4 p * x4 p * w4 p + 2 * x4 p * netDipoleX),
          xyqdp = xyqdp m + (x4 p * y4 p * w4 p + x4 p * netDipoleY + y4 p * netDipoleX),
          xzqdp = xzqdp m + (x4 p * z4 p * w4 p + x4 p * netDipoleZ + z4 p * netDipoleX),
          yxqdp = yxqdp m + (y4 p * x4 p * w4 p + y4 p * netDipoleX + x4 p * netDipoleY),
          yyqdp = yyqdp m + (y4 p * y4 p * w4 p + 2 * y4 p * netDipoleY),
          yzqdp = yzqdp m + (y4 p * z4 p * w4 p + y4 p * netDipoleZ + z4 p * netDipoleY),
          zxqdp = zxqdp m + (z4 p * x4 p * w4 p + z4 p * netDipoleX + x4 p * netDipoleZ),
          zyqdp = zyqdp m + (z4 p * y4 p * w4 p + z4 p * netDipoleY + y4 p * netDipoleZ),
          zzqdp = zzqdp m + (z4 p * z4 p * w4 p + 2 * z4 p * netDipoleZ) \<rparr>)"

definition zeroMoments :: moments where
  "zeroMoments = \<lparr> totalCharge = 0, xdpl = 0, ydpl = 0, zdpl = 0,
                   xxqdp = 0, xyqdp = 0, xzqdp = 0, yxqdp = 0, yyqdp = 0, yzqdp = 0,
                   zxqdp = 0, zyqdp = 0, zzqdp = 0 \<rparr>"

text \<open>Conversion of the quadrupole from traced to traceless form.\<close>

definition tracedToTraceless :: "moments \<Rightarrow> moments" where
  "tracedToTraceless m =
    (let qave = (xxqdp m + yyqdp m + zzqdp m) / 3
     in m \<lparr> xxqdp := 1.5 * (xxqdp m - qave),
            xyqdp := 1.5 * xyqdp m,
            xzqdp := 1.5 * xzqdp m,
            yxqdp := 1.5 * yxqdp m,
            yyqdp := 1.5 * (yyqdp m - qave),
            yzqdp := 1.5 * yzqdp m,
            zxqdp := 1.5 * zxqdp m,
            zyqdp := 1.5 * zyqdp m,
            zzqdp := 1.5 * (zzqdp m - qave) \<rparr>)"

text \<open>Third loop: the atomic quadrupoles, five stored components per atom.\<close>

definition addAtomicQuadrupole :: "real list \<Rightarrow> nat \<Rightarrow> moments \<Rightarrow> moments" where
  "addAtomicQuadrupole quadrupoleVec i m =
     m \<lparr> xxqdp := xxqdp m + 3 * quadrupoleVec ! (5*i),
         xyqdp := xyqdp m + 3 * quadrupoleVec ! (5*i+1),
         xzqdp := xzqdp m + 3 * quadrupoleVec ! (5*i+2),
         yxqdp := yxqdp m + 3 * quadrupoleVec ! (5*i+1),
         yyqdp := yyqdp m + 3 * quadrupoleVec ! (5*i+3),
         yzqdp := yzqdp m + 3 * quadrupoleVec ! (5*i+4),
         zxqdp := zxqdp m + 3 * quadrupoleVec ! (5*i+2),
         zyqdp := zyqdp m + 3 * quadrupoleVec ! (5*i+4),
         zzqdp := zzqdp m + -3 * (quadrupoleVec ! (5*i) + quadrupoleVec ! (5*i+3)) \<rparr>"

definition debye :: real where
  "debye = 4.80321"

definition outputMoments :: "moments \<Rightarrow> real list" where
  "outputMoments m =
     [totalCharge m,
      10.0 * xdpl m * debye, 10.0 * ydpl m * debye, 10.0 * zdpl m * debye,
      100.0 * xxqdp m * debye, 100.0 * xyqdp m * debye, 100.0 * xzqdp m * debye,
      100.0 * yxqdp m * debye, 100.0 * yyqdp m * debye, 100.0 * yzqdp m * debye,
      100.0 * zxqdp m * debye, 100.0 * zyqdp m * debye, 100.0 * zzqdp m * debye]"

text \<open>
  The arrays are read at the indices \<open>0 .. numAtoms - 1\<close> (\<open>5 * numAtoms\<close> entries of
  \<open>quadrupoleVec\<close>); the device arrays are padded to at least that length.
\<close>

definition computeSystemMultipoleMoments ::
    "nat \<Rightarrow> real4 list \<Rightarrow> real4 list \<Rightarrow> real3 list \<Rightarrow> real3 list \<Rightarrow> real list \<Rightarrow> real list" where
  "computeSystemMultipoleMoments numAtoms posq velm labDipoleVec inducedDipoleVec quadrupoleVec =
    (let centerOfMass = computeCenterOfMass numAtoms posq velm;
         posqLocal = localCoordinates numAtoms posq centerOfMass;
         m1 = fold (momentsStep posqLocal labDipoleVec inducedDipoleVec) [0..<numAtoms] zeroMoments;
         m2 = tracedToTraceless m1;
         m3 = fold (addAtomicQuadrupole quadrupoleVec) [0..<numAtoms] m2
     in outputMoments m3)"

section \<open>B-spline moduli (AmoebaCudaKernels.cpp, initialize)\<close>

text \<open>
  The block "Initialize the B-spline moduli" is the same text in
  \<open>CudaCalcAmoebaMultipoleForceKernel::initialize\<close> and in
  \<open>CudaCalcHippoNonbondedForceKernel::initialize\<close>.  It works in \<open>double\<close>, read here as
  the reals, with \<open>M_PI\<close> as \<open>pi\<close>.
\<close>

text \<open>
  Modelled from the spec: the constant \<open>PmeOrder\<close> is declared in a header that is not
  part of the sources at hand; the specification gives the B-spline order on
  accelerators as \<open>PmeOrder = 5\<close>.
\<close>

definition PmeOrder :: nat where
  "PmeOrder = 5"

text \<open>
  The spline values \<open>data[0 .. PmeOrder-1]\<close> at \<open>x = 0\<close>.  Each entry is written before it
  is read; the entries not yet written are shown as \<open>0\<close>.
\<close>

definition bsplineInner :: "real \<Rightarrow> nat \<Rightarrow> real \<Rightarrow> nat \<Rightarrow> real list \<Rightarrow> real list" where
  "bsplineInner x i denom j data =
     data[i-j := ((x + real j) * data ! (i-j-1) + ((real (i-j+1)) - x) * data ! (i-j)) * denom]"

definition bsplineOuter :: "real \<Rightarrow> nat \<Rightarrow> real list \<Rightarrow> real list" where
  "bsplineOuter x i data =
    (let denom = 1.0 / real i;
         data1 = data[i := x * data ! (i-1) * denom];
         data2 = fold (bsplineInner x i denom) [1..<i] data1
     in data2[0 := (1.0 - x) * data2 ! 0 * denom])"

definition bsplineData :: "real list" where
  "bsplineData =
    (let x = 0.0;
         data = [1.0 - x, x] @ replicate (PmeOrder - 2) 0
     in fold (bsplineOuter x) [2..<PmeOrder] data)"

text \<open>
  \<open>bsplines_data\<close> has \<open>maxSize + 1\<close> entries, zero but for the indices
  \<open>2 .. PmeOrder + 1\<close>.  (The code writes these indices without a check; a grid with
  \<open>maxSize \<le> PmeOrder\<close> would write past the end, where \<open>list_update\<close> does nothing.)
\<close>

definition bsplinesData :: "nat \<Rightarrow> real list" where
  "bsplinesData maxSize =
     fold (\<lambda>i b. b[i := bsplineData ! (i-2)]) [2..<PmeOrder+2] (replicate (maxSize+1) 0.0)"

text \<open>The modulus of the discrete Fourier transform.\<close>

definition dftStep :: "real list \<Rightarrow> real \<Rightarrow> nat \<Rightarrow> nat \<Rightarrow> real \<times> real \<Rightarrow> real \<times> real" where
  "dftStep bsplines_data factor i j acc =
    (let arg = factor * real i * (real j - 1)
     in (fst acc + bsplines_data ! j * cos arg, snd acc + bsplines_data ! j * sin arg))"

definition dftModulus :: "nat \<Rightarrow> real list \<Rightarrow> nat \<Rightarrow> real" where
  "dftModulus ndata bsplines_data i =
    (let factor = 2.0 * pi / real ndata;
         acc = fold (dftStep bsplines_data factor i) [1..<ndata+1] (0.0, 0.0);
         sc = fst acc;
         ss = snd acc
     in sc*sc + ss*ss)"

definition dftModuli :: "nat \<Rightarrow> real list \<Rightarrow> real list" where
  "dftModuli ndata bsplines_data = map (dftModulus ndata bsplines_data) [0..<ndata]"

text \<open>
  "Fix for exponential Euler spline interpolation failure": three statements that
  update \<open>moduli\<close> in place, one after the other.  The threshold is the literal
  \<open>1.0e-7\<close>.
\<close>

definition eps :: real where
  "eps = 1.0 / 10^7"

definition fixInterior :: "nat \<Rightarrow> real list \<Rightarrow> real list" where
  "fixInterior i moduli =
     (if moduli ! i < eps then moduli[i := 0.9 * (moduli ! (i-1) + moduli ! (i+1))] else moduli)"

definition fixModuli :: "nat \<Rightarrow> real list \<Rightarrow> real list" where
  "fixModuli ndata moduli =
    (let m1 = (if moduli ! 0 < eps then moduli[0 := 0.9 * moduli ! 1] else moduli);
         m2 = fold fixInterior [1..<ndata-1] m1
     in if m2 ! (ndata-1) < eps then m2[ndata-1 := 0.9 * m2 ! (ndata-2)] else m2)"

text \<open>
  "Compute and apply the optimal zeta coefficient."  The loop variable \<open>i\<close> runs from
  \<open>1\<close> to \<open>ndata\<close>; \<open>pow\<close> with an integer exponent is the power function.
\<close>

definition jcut :: nat where
  "jcut = 50"

definition zetaPlus :: "real \<Rightarrow> nat \<Rightarrow> real \<times> real \<Rightarrow> real \<times> real" where
  "zetaPlus factor j acc =
    (let arg = factor / (factor + pi * real j)
     in (fst acc + arg ^ PmeOrder, snd acc + arg ^ (2*PmeOrder)))"

definition zetaMinus :: "real \<Rightarrow> nat \<Rightarrow> real \<times> real \<Rightarrow> real \<times> real" where
  "zetaMinus factor j acc =
    (let arg = factor / (factor - pi * real j)
     in (fst acc + arg ^ PmeOrder, snd acc + arg ^ (2*PmeOrder)))"

definition zeta :: "nat \<Rightarrow> nat \<Rightarrow> real" where
  "zeta ndata i =
    (let k = int i - 1;
         k = (if i > ndata div 2 then k - int ndata else k)
     in if k = 0 then 1.0
        else
          (let factor = pi * real_of_int k / real ndata;
               sums1 = fold (zetaPlus factor) [1..<jcut+1] (1.0, 1.0);
               sums2 = fold (zetaMinus factor) [1..<jcut+1] sums1;
               sum1 = fst sums2;
               sum2 = snd sums2
           in sum2 / sum1))"

definition applyZeta :: "nat \<Rightarrow> real list \<Rightarrow> real list" where
  "applyZeta ndata moduli =
     fold (\<lambda>i m. m[i-1 := m ! (i-1) * zeta ndata i * zeta ndata i]) [1..<ndata+1] moduli"

text \<open>The moduli of one grid axis of size \<open>ndata\<close>, as uploaded.\<close>

definition initializeBsplineModuli :: "nat \<Rightarrow> nat \<Rightarrow> real list" where
  "initializeBsplineModuli ndata maxSize =
     applyZeta ndata (fixModuli ndata (dftModuli ndata (bsplinesData maxSize)))"

section \<open>Host code of CudaCalcAmoebaMultipoleForceKernel (AmoebaCudaKernels.cpp)\<close>

subsection \<open>Device memory, kernel launches and the state of the kernel object\<close>

datatype polarizationType = Mutual | Direct | Extrapolated

datatype int4 = make_int4 int int int int

text \<open>
  The device arrays that the host code reads or writes itself.  Arrays that only the
  device kernels touch (grids, fields of the solver's history, forces, torques) are
  behind \<open>other\<close>.  The field and dipole arrays are shown per atom.
\<close>

record 'x device =
  posq :: "real4 list"
  velm :: "real4 list"
  lastPositions :: "real4 list"
  dampingAndThole :: "(real \<times> real) list"
  polarizability :: "real list"
  multipoleParticles :: "int4 list"
  localDipoles :: "real list"
  localQuadrupoles :: "real list"
  labDipoles :: "real3 list"
  labQuadrupoles :: "real list"
  fixedField :: "real3 list"
  inducedField :: "real3 list"
  inducedDipole :: "real3 list"
  extrapolatedDipole :: "real3 list list"
  inducedDipoleErrors :: "(real \<times> real) list"
  potential :: "real list"
  other :: 'x

text \<open>The buffers that the host clears with \<open>cu.clearBuffer\<close>.\<close>

datatype deviceBuffer =
    pmeGridBuffer
  | inducedFieldBuffer
  | inducedFieldPolarBuffer
  | inducedDipoleFieldGradientBuffer
  | inducedDipoleFieldGradientPolarBuffer
  | gkInducedFieldBuffer
  | gkInducedFieldPolarBuffer
  | inducedDipoleFieldGradientGkBuffer
  | inducedDipoleFieldGradientGkPolarBuffer

datatype pmePotential = pmePhi | pmePhidp

text \<open>
  Everything the host code asks the device to do, named after the kernel object or the
  host call.  Arguments are kept where the host sets them per call:
  \<open>recordDIISDipolesKernel iteration multipoleArrays\<close> (argument 14 is \<open>true\<close> for the
  multipole arrays and \<open>false\<close> for those of the generalized Kirkwood kernel),
  \<open>updateInducedFieldKernel numPrev multipoleArrays\<close>, the potential that
  \<open>pmeTransformPotentialKernel\<close> transforms, and the grid points uploaded for
  \<open>computePotentialKernel\<close>.
\<close>

datatype launch =
    uploadScaleFactors
  | computeMomentsKernel
  | gkComputeBornRadii
  | computeFixedFieldKernel
  | recordInducedDipolesKernel
  | electrostaticsKernel
  | gkFinishComputation
  | pmeTransformMultipolesKernel
  | pmeSpreadFixedMultipolesKernel
  | pmeFinishSpreadChargeKernel
  | computeForwardFFT
  | pmeConvolutionKernel
  | computeInverseFFT
  | pmeFixedPotentialKernel
  | pmeTransformPotentialKernel pmePotential
  | pmeFixedForceKernel
  | clearBuffer deviceBuffer
  | pmeSpreadInducedDipolesKernel
  | pmeInducedPotentialKernel
  | pmeInducedForceKernel
  | addExtrapolatedGradientKernel
  | mapTorqueKernel
  | computeInducedFieldKernel
  | pmeRecordInducedFieldDipolesKernel
  | recordDIISDipolesKernel int bool
  | buildMatrixKernel int
  | solveMatrixKernel int
  | updateInducedFieldKernel int bool
  | initExtrapolatedKernel
  | iterateExtrapolatedKernel nat
  | computeExtrapolatedKernel
  | computePotentialKernel "real4 list"

text \<open>
  The device kernels are not host code: what a launch does to the device memory is a
  parameter of the host functions.
\<close>

type_synonym 'x semantics = "launch \<Rightarrow> 'x device \<Rightarrow> 'x device"

text \<open>
  The kernel object: the context's device memory \<open>cu\<close>, its pinned host buffer and
  atom order, the members set by \<open>initialize\<close>, the flags, and the record of the
  launches made so far (oldest first).  \<open>gkKernel\<close> says whether the pointer is non-null;
  \<open>contextHasGk\<close> whether the context holds a generalized Kirkwood force.
\<close>

record 'x kernelState =
  cu :: "'x device"
  pinnedBuffer :: "real4 list"
  atomIndex :: "nat list"
  launched :: "launch list"
  numAtoms :: nat
  paddedNumAtoms :: nat
  numMultipoles :: nat
  polarizationType :: polarizationType
  maxInducedIterations :: int
  inducedEpsilon :: real
  maxExtrapolationOrder :: nat
  hasQuadrupoles :: bool
  usePME :: bool
  pmeGridInitialized :: bool
  useDoublePrecision :: bool
  gkKernel :: bool
  contextHasGk :: bool
  hasInitializedScaleFactors :: bool
  multipolesAreValid :: bool
  moleculesInvalidated :: bool

definition exec :: "'x semantics \<Rightarrow> launch \<Rightarrow> 'x kernelState \<Rightarrow> 'x kernelState" where
  "exec run k s = s \<lparr> cu := run k (cu s), launched := launched s @ [k] \<rparr>"

text \<open>
  Modelled from the spec: the constant \<open>MaxPrevDIISDipoles\<close> is declared in a header that
  is not part of the sources at hand; the specification gives the length of the rolling
  history as 20.
\<close>

definition MaxPrevDIISDipoles :: int where
  "MaxPrevDIISDipoles = 20"

subsection \<open>computeInducedField\<close>

definition computeInducedField :: "'x semantics \<Rightarrow> 'x kernelState \<Rightarrow> 'x kernelState" where
  "computeInducedField run s =
    fold (exec run)
      ([clearBuffer inducedFieldBuffer, clearBuffer inducedFieldPolarBuffer]
       @ (if polarizationType s = Extrapolated
          then [clearBuffer inducedDipoleFieldGradientBuffer, clearBuffer inducedDipoleFieldGradientPolarBuffer]
          else [])
       @ (if gkKernel s
          then [clearBuffer gkInducedFieldBuffer, clearBuffer gkInducedFieldPolarBuffer]
               @ (if polarizationType s = Extrapolated
                  then [clearBuffer inducedDipoleFieldGradientGkBuffer,
                        clearBuffer inducedDipoleFieldGradientGkPolarBuffer]
                  else [])
          else [])
       @ [computeInducedFieldKernel]
       @ (if pmeGridInitialized s
          then [clearBuffer pmeGridBuffer, pmeSpreadInducedDipolesKernel]
               @ (if useDoublePrecision s then [pmeFinishSpreadChargeKernel] else [])
               @ [computeForwardFFT, pmeConvolutionKernel, computeInverseFFT, pmeInducedPotentialKernel,
                  pmeRecordInducedFieldDipolesKernel]
          else []))
      s"

subsection \<open>iterateDipolesByDIIS\<close>

text \<open>
  The host sums the downloaded errors and compares
  \<open>48.033324*sqrt(max(total1, total2)/cu.getNumAtoms()) < inducedEpsilon\<close>.  In exact
  arithmetic the expression has no value when the number of atoms is zero or the
  larger total is negative; in the code it is then infinite or not a number and the
  comparison is false, which the two guards spell out.
\<close>

definition dipolesConverged :: "(real \<times> real) list \<Rightarrow> nat \<Rightarrow> real \<Rightarrow> bool" where
  "dipolesConverged errors n epsilon =
    (let total1 = fold (\<lambda>e t. t + fst e) errors 0.0;
         total2 = fold (\<lambda>e t. t + snd e) errors 0.0
     in n \<noteq> 0 \<and> 0 \<le> max total1 total2
        \<and> 48.033324 * sqrt (max total1 total2 / real n) < epsilon)"

definition iterateDipolesByDIIS ::
    "'x semantics \<Rightarrow> int \<Rightarrow> 'x kernelState \<Rightarrow> bool \<times> 'x kernelState" where
  "iterateDipolesByDIIS run iteration s =
    (let s1 = (if gkKernel s then exec run (recordDIISDipolesKernel iteration False) s else s);
         s2 = exec run (recordDIISDipolesKernel iteration True) s1;
         errors = inducedDipoleErrors (cu s2);
         numPrev = (if iteration+1 < MaxPrevDIISDipoles then iteration+1 else MaxPrevDIISDipoles);
         s3 = exec run (buildMatrixKernel iteration) s2;
         s4 = exec run (solveMatrixKernel iteration) s3
     in if dipolesConverged errors (numAtoms s) (inducedEpsilon s) then (True, s4)
        else
          (let s5 = exec run (updateInducedFieldKernel numPrev True) s4;
               s6 = (if gkKernel s then exec run (updateInducedFieldKernel numPrev False) s5 else s5)
           in (False, s6)))"

subsection \<open>computeExtrapolatedDipoles\<close>

definition extrapolationOrderStep :: "'x semantics \<Rightarrow> nat \<Rightarrow> 'x kernelState \<Rightarrow> 'x kernelState" where
  "extrapolationOrderStep run order s = exec run (iterateExtrapolatedKernel order) (computeInducedField run s)"

definition computeExtrapolatedDipoles :: "'x semantics \<Rightarrow> 'x kernelState \<Rightarrow> 'x kernelState" where
  "computeExtrapolatedDipoles run s =
    (let s1 = exec run initExtrapolatedKernel s;
         s2 = fold (extrapolationOrderStep run) [1..<maxExtrapolationOrder s] s1;
         s3 = exec run computeExtrapolatedKernel s2
     in computeInducedField run s3)"

subsection \<open>execute\<close>

text \<open>
  The loop "Iterate until the dipoles converge":
  \<open>for (int i = 0; i < maxInducedIterations; i++) { computeInducedField(...); bool converged
  = iterateDipolesByDIIS(i); if (converged) break; }\<close>
\<close>

lemma exec_maxInducedIterations: "maxInducedIterations (exec run k s) = maxInducedIterations s"
  by (simp add: exec_def)

lemma fold_exec_maxInducedIterations:
  "maxInducedIterations (fold (exec run) ks s) = maxInducedIterations s"
  by (induction ks arbitrary: s) (simp_all add: exec_maxInducedIterations)

lemma iterateDipolesByDIIS_maxInducedIterations:
  "maxInducedIterations (snd (iterateDipolesByDIIS run i (computeInducedField run s))) = maxInducedIterations s"
  by (simp add: iterateDipolesByDIIS_def computeInducedField_def Let_def
      exec_maxInducedIterations fold_exec_maxInducedIterations)

function inducedDipoleLoop :: "'x semantics \<Rightarrow> int \<Rightarrow> 'x kernelState \<Rightarrow> 'x kernelState" where
  "inducedDipoleLoop run i s =
    (if i < maxInducedIterations s then
       (let s1 = computeInducedField run s;
            r = iterateDipolesByDIIS run i s1;
            converged = fst r
        in if converged then snd r else inducedDipoleLoop run (i+1) (snd r))
     else s)"
  by pat_completeness auto
termination
  by (relation "measure (\<lambda>(run, i, s). nat (maxInducedIterations s - i))")
     (simp_all add: iterateDipolesByDIIS_maxInducedIterations)

text \<open>
  The first call links the generalized Kirkwood kernel, when the context has one, and
  runs \<open>initializeScaleFactors\<close>, which sets its flag and uploads the covalent and
  polarization flags.
\<close>

definition initializeScaleFactors :: "'x semantics \<Rightarrow> 'x kernelState \<Rightarrow> 'x kernelState" where
  "initializeScaleFactors run s = exec run uploadScaleFactors (s \<lparr> hasInitializedScaleFactors := True \<rparr>)"

definition executeWithoutPME :: "'x semantics \<Rightarrow> 'x kernelState \<Rightarrow> 'x kernelState" where
  "executeWithoutPME run s =
    (let s1 = (if gkKernel s then exec run gkComputeBornRadii s else s);
         s2 = exec run computeFixedFieldKernel s1;
         s3 = exec run recordInducedDipolesKernel s2;
         s4 = (if polarizationType s3 = Extrapolated then computeExtrapolatedDipoles run s3 else s3);
         s5 = inducedDipoleLoop run 0 s4;
         s6 = exec run electrostaticsKernel s5
     in if gkKernel s6 then exec run gkFinishComputation s6 else s6)"

definition executeWithPME :: "'x semantics \<Rightarrow> 'x kernelState \<Rightarrow> 'x kernelState" where
  "executeWithPME run s =
    (let s1 = fold (exec run)
                ([pmeTransformMultipolesKernel, pmeSpreadFixedMultipolesKernel]
                 @ (if useDoublePrecision s then [pmeFinishSpreadChargeKernel] else [])
                 @ [computeForwardFFT, pmeConvolutionKernel, computeInverseFFT, pmeFixedPotentialKernel,
                    pmeTransformPotentialKernel pmePhi, pmeFixedForceKernel,
                    computeFixedFieldKernel, recordInducedDipolesKernel,
                    clearBuffer pmeGridBuffer, pmeSpreadInducedDipolesKernel]
                 @ (if useDoublePrecision s then [pmeFinishSpreadChargeKernel] else [])
                 @ [computeForwardFFT, pmeConvolutionKernel, computeInverseFFT, pmeInducedPotentialKernel])
                s;
         s2 = (if polarizationType s1 = Extrapolated then computeExtrapolatedDipoles run s1 else s1);
         s3 = inducedDipoleLoop run 0 s2
     in fold (exec run) [electrostaticsKernel, pmeTransformPotentialKernel pmePhidp, pmeInducedForceKernel] s3)"

definition execute :: "'x semantics \<Rightarrow> 'x kernelState \<Rightarrow> 'x kernelState" where
  "execute run s =
    (let s0 = (if \<not> hasInitializedScaleFactors s
               then (initializeScaleFactors run s) \<lparr> gkKernel := (if contextHasGk s then True else gkKernel s) \<rparr>
               else s);
         s1 = exec run computeMomentsKernel s0;
         s2 = (if \<not> pmeGridInitialized s1 then executeWithoutPME run s1 else executeWithPME run s1);
         s3 = (if polarizationType s2 = Extrapolated then exec run addExtrapolatedGradientKernel s2 else s2);
         s4 = exec run mapTorqueKernel s3
     in s4 \<lparr> cu := (cu s4) \<lparr> lastPositions := posq (cu s4) \<rparr>, multipolesAreValid := True \<rparr>)"

subsection \<open>Force parameters, initialize and copyParametersToContext\<close>

text \<open>
  What the host reads from the \<open>AmoebaMultipoleForce\<close>: per multipole the values that
  \<open>getMultipoleParameters\<close> returns (a dipole of 3 and a quadrupole of 9 components, row
  by row), and the options that \<open>initialize\<close> records.
\<close>

record multipoleParameters =
  charge :: real
  dipole :: "real list"
  quadrupole :: "real list"
  axisType :: int
  atomZ :: int
  atomX :: int
  atomY :: int
  thole :: real
  damping :: real
  polarity :: real

record multipoleForce =
  multipoles :: "multipoleParameters list"
  forcePolarizationType :: polarizationType
  mutualInducedMaxIterations :: int
  mutualInducedTargetEpsilon :: real
  extrapolationCoefficients :: "real list"
  nonbondedMethodIsPME :: bool

datatype exception = OpenMMException string

text \<open>
  The host vectors built by the first loop of \<open>initialize\<close> and of
  \<open>copyParametersToContext\<close> (one \<open>push_back\<close> group per multipole), and the padding that
  the second loop appends up to \<open>paddedNumAtoms\<close> entries.  The conversions to \<open>float\<close>
  are the identity on the reals.  Of the nine quadrupole components the code stores the
  five with the indices 0, 1, 2, 4 and 5.
\<close>

definition dampingAndTholeVec :: "multipoleParameters list \<Rightarrow> (real \<times> real) list" where
  "dampingAndTholeVec ps = map (\<lambda>p. (damping p, thole p)) ps"

definition polarizabilityVec :: "multipoleParameters list \<Rightarrow> real list" where
  "polarizabilityVec ps = map polarity ps"

definition multipoleParticlesVec :: "multipoleParameters list \<Rightarrow> int4 list" where
  "multipoleParticlesVec ps = map (\<lambda>p. make_int4 (atomX p) (atomY p) (atomZ p) (axisType p)) ps"

definition localDipolesVec :: "multipoleParameters list \<Rightarrow> real list" where
  "localDipolesVec ps = concat (map (\<lambda>p. map (\<lambda>j. dipole p ! j) [0..<3]) ps)"

definition localQuadrupolesVec :: "multipoleParameters list \<Rightarrow> real list" where
  "localQuadrupolesVec ps =
     concat (map (\<lambda>p. [quadrupole p ! 0, quadrupole p ! 1, quadrupole p ! 2,
                         quadrupole p ! 4, quadrupole p ! 5]) ps)"

definition padTo :: "nat \<Rightarrow> nat \<Rightarrow> nat \<Rightarrow> 'a \<Rightarrow> 'a list \<Rightarrow> 'a list" where
  "padTo numEntries padded perAtom zero vec = vec @ replicate ((padded - numEntries) * perAtom) zero"

text \<open>
  \<open>hasQuadrupoles\<close>, as \<open>initialize\<close> computes it: some stored quadrupole component is
  not zero.
\<close>

definition anyNonZero :: "real list \<Rightarrow> bool" where
  "anyNonZero vec = list_ex (\<lambda>q. q \<noteq> 0.0) vec"

text \<open>
  The macro \<open>EXTRAPOLATION_COEFFICIENTS_SUM\<close> that \<open>initialize\<close> hands to the device
  code: for each order \<open>i\<close> the sum of the coefficients from \<open>i\<close> on, accumulated from
  left to right.
\<close>

definition extrapolationCoefficientsSum :: "real list \<Rightarrow> real list" where
  "extrapolationCoefficientsSum coefficients =
    (let maxOrder = length coefficients
     in map (\<lambda>i. fold (\<lambda>j sum. sum + coefficients ! j) [i..<maxOrder] 0.0) [0..<maxOrder])"

text \<open>
  The members that \<open>initialize\<close> sets and the uploads it makes, as far as the functions
  below use them; kernels are compiled and work arrays allocated besides.  The kernel
  starts from the constructor's values: no flag set, no generalized Kirkwood kernel.
  \<open>inducedEpsilon\<close> is assigned for mutual polarization only.
\<close>

definition initialize :: "multipoleForce \<Rightarrow> 'x kernelState \<Rightarrow> 'x kernelState" where
  "initialize force s =
    (let ps = multipoles force;
         n = length ps;
         padded = paddedNumAtoms s;
         temp = map (\<lambda>i. if i < n then make_real4 0 0 0 (charge (ps ! i)) else make_real4 0 0 0 0)
                  [0..<length (posq (cu s))];
         device = (cu s) \<lparr>
            dampingAndThole := padTo n padded 1 (0, 0) (dampingAndTholeVec ps),
            polarizability := padTo n padded 1 0 (polarizabilityVec ps),
            multipoleParticles := padTo n padded 1 (make_int4 0 0 0 0) (multipoleParticlesVec ps),
            localDipoles := padTo n padded 3 0 (localDipolesVec ps),
            localQuadrupoles := padTo n padded 5 0 (localQuadrupolesVec ps),
            posq := temp \<rparr>
     in s \<lparr> cu := device,
            numMultipoles := n,
            hasQuadrupoles := anyNonZero (localQuadrupolesVec ps),
            polarizationType := forcePolarizationType force,
            maxInducedIterations :=
              (if forcePolarizationType force = Mutual then mutualInducedMaxIterations force else 0),
            inducedEpsilon :=
              (if forcePolarizationType force = Mutual then mutualInducedTargetEpsilon force
               else inducedEpsilon s),
            usePME := nonbondedMethodIsPME force,
            pmeGridInitialized := nonbondedMethodIsPME force,
            maxExtrapolationOrder := length (extrapolationCoefficients force),
            hasInitializedScaleFactors := False,
            multipolesAreValid := False,
            gkKernel := False \<rparr>)"

text \<open>
  \<open>copyParametersToContext\<close>.  A thrown exception leaves the kernel object as it is at
  that point: the result \<open>Inl (e, s')\<close> carries the exception and that state, \<open>Inr s'\<close>
  is the normal return.  The position array is downloaded into the pinned buffer, the
  charges are written there, and the buffer is uploaded again at the end.
\<close>

definition setCharge :: "real4 \<Rightarrow> real \<Rightarrow> real4" where
  "setCharge p c = make_real4 (x4 p) (y4 p) (z4 p) c"

definition copyParametersToContext ::
    "multipoleForce \<Rightarrow> 'x kernelState \<Rightarrow> (exception \<times> 'x kernelState) + 'x kernelState" where
  "copyParametersToContext force s =
    (let ps = multipoles force;
         n = length ps
     in if n \<noteq> numAtoms s
        then Inl (OpenMMException ''updateParametersInContext: The number of multipoles has changed'', s)
        else
          (let s1 = s \<lparr> pinnedBuffer := posq (cu s) \<rparr>;
               s2 = s1 \<lparr> pinnedBuffer :=
                      fold (\<lambda>i buf. buf[i := setCharge (buf ! i) (charge (ps ! i))]) [0..<n] (pinnedBuffer s1) \<rparr>
           in if \<not> hasQuadrupoles s2 \<and> anyNonZero (localQuadrupolesVec ps)
              then Inl (OpenMMException
                     ''updateParametersInContext: Cannot set a non-zero quadrupole moment, because quadrupoles were excluded from the kernel'',
                     s2)
              else
                (let padded = paddedNumAtoms s2;
                     device = (cu s2) \<lparr>
                        dampingAndThole := padTo n padded 1 (0, 0) (dampingAndTholeVec ps),
                        polarizability := padTo n padded 1 0 (polarizabilityVec ps),
                        multipoleParticles := padTo n padded 1 (make_int4 0 0 0 0) (multipoleParticlesVec ps),
                        localDipoles := padTo n padded 3 0 (localDipolesVec ps),
                        localQuadrupoles := padTo n padded 5 0 (localQuadrupolesVec ps),
                        posq := pinnedBuffer s2 \<rparr>
                 in Inr (s2 \<lparr> cu := device, moleculesInvalidated := True, multipolesAreValid := False \<rparr>))))"

subsection \<open>ensureMultipolesValid and the accessors\<close>

text \<open>
  The comparison loop of \<open>ensureMultipolesValid\<close> leaves at the first atom whose \<open>x\<close>,
  \<open>y\<close> or \<open>z\<close> differs between the current and the recorded positions.
\<close>

definition positionsDiffer :: "nat \<Rightarrow> real4 list \<Rightarrow> real4 list \<Rightarrow> bool" where
  "positionsDiffer numParticles pos1 pos2 =
     list_ex (\<lambda>i. x4 (pos1 ! i) \<noteq> x4 (pos2 ! i) \<or> y4 (pos1 ! i) \<noteq> y4 (pos2 ! i)
                   \<or> z4 (pos1 ! i) \<noteq> z4 (pos2 ! i)) [0..<numParticles]"

text \<open>
  \<open>context.calcForcesAndEnergy\<close> belongs to the context, not to this kernel: it is the
  parameter \<open>calcForcesAndEnergy\<close>.  A force evaluation in which this force takes part
  calls \<open>execute\<close> above.
\<close>

definition ensureMultipolesValid ::
    "('x kernelState \<Rightarrow> 'x kernelState) \<Rightarrow> 'x kernelState \<Rightarrow> 'x kernelState" where
  "ensureMultipolesValid calcForcesAndEnergy s =
    (let s1 = (if multipolesAreValid s
               then (if positionsDiffer (numAtoms s) (posq (cu s)) (lastPositions (cu s))
                     then s \<lparr> multipolesAreValid := False \<rparr> else s)
               else s)
     in if \<not> multipolesAreValid s1 then calcForcesAndEnergy s1 else s1)"

text \<open>
  The accessors fill the caller's vector: it is resized to the number of particles and
  entry \<open>order[i]\<close> receives the value of the device index \<open>i\<close>.
\<close>

definition resize :: "nat \<Rightarrow> 'a \<Rightarrow> 'a list \<Rightarrow> 'a list" where
  "resize n zero xs = take n xs @ replicate (n - length xs) zero"

definition scatterByOrder :: "nat \<Rightarrow> nat list \<Rightarrow> (nat \<Rightarrow> 'a) \<Rightarrow> 'a list \<Rightarrow> 'a list" where
  "scatterByOrder numParticles order value out =
     fold (\<lambda>i out. out[order ! i := value i]) [0..<numParticles] out"

definition getLabFramePermanentDipoles ::
    "('x kernelState \<Rightarrow> 'x kernelState) \<Rightarrow> 'x kernelState \<Rightarrow> real3 list \<Rightarrow> 'x kernelState \<times> real3 list" where
  "getLabFramePermanentDipoles calcForcesAndEnergy s dipoles =
    (let s1 = ensureMultipolesValid calcForcesAndEnergy s;
         numParticles = numAtoms s1;
         labDipoleVec = labDipoles (cu s1)
     in (s1, scatterByOrder numParticles (atomIndex s1)
               (\<lambda>i. make_real3 (x3 (labDipoleVec ! i)) (y3 (labDipoleVec ! i)) (z3 (labDipoleVec ! i)))
               (resize numParticles (make_real3 0 0 0) dipoles)))"

definition getInducedDipoles ::
    "('x kernelState \<Rightarrow> 'x kernelState) \<Rightarrow> 'x kernelState \<Rightarrow> real3 list \<Rightarrow> 'x kernelState \<times> real3 list" where
  "getInducedDipoles calcForcesAndEnergy s dipoles =
    (let s1 = ensureMultipolesValid calcForcesAndEnergy s;
         numParticles = numAtoms s1;
         d = inducedDipole (cu s1)
     in (s1, scatterByOrder numParticles (atomIndex s1)
               (\<lambda>i. make_real3 (x3 (d ! i)) (y3 (d ! i)) (z3 (d ! i)))
               (resize numParticles (make_real3 0 0 0) dipoles)))"

definition getTotalDipoles ::
    "('x kernelState \<Rightarrow> 'x kernelState) \<Rightarrow> 'x kernelState \<Rightarrow> real3 list \<Rightarrow> 'x kernelState \<times> real3 list" where
  "getTotalDipoles calcForcesAndEnergy s dipoles =
    (let s1 = ensureMultipolesValid calcForcesAndEnergy s;
         numParticles = numAtoms s1;
         inducedDipoleVec = inducedDipole (cu s1);
         labDipoleVec = labDipoles (cu s1)
     in (s1, scatterByOrder numParticles (atomIndex s1)
               (\<lambda>i. make_real3 (x3 (labDipoleVec ! i) + x3 (inducedDipoleVec ! i))
                                 (y3 (labDipoleVec ! i) + y3 (inducedDipoleVec ! i))
                                 (z3 (labDipoleVec ! i) + z3 (inducedDipoleVec ! i)))
               (resize numParticles (make_real3 0 0 0) dipoles)))"

definition getElectrostaticPotential ::
    "('x kernelState \<Rightarrow> 'x kernelState) \<Rightarrow> 'x semantics \<Rightarrow> 'x kernelState \<Rightarrow> real3 list
       \<Rightarrow> 'x kernelState \<times> real list" where
  "getElectrostaticPotential calcForcesAndEnergy run s inputGrid =
    (let s1 = ensureMultipolesValid calcForcesAndEnergy s;
         numPoints = length inputGrid;
         p = map (\<lambda>g. make_real4 (x3 g) (y3 g) (z3 g) 0) inputGrid;
         s2 = exec run (computePotentialKernel p) s1
     in (s2, map (\<lambda>i. potential (cu s2) ! i) [0..<numPoints]))"

definition getSystemMultipoleMoments ::
    "('x kernelState \<Rightarrow> 'x kernelState) \<Rightarrow> 'x kernelState \<Rightarrow> 'x kernelState \<times> real list" where
  "getSystemMultipoleMoments calcForcesAndEnergy s =
    (let s1 = ensureMultipolesValid calcForcesAndEnergy s
     in (s1, computeSystemMultipoleMoments (numAtoms s1) (posq (cu s1)) (velm (cu s1))
               (labDipoles (cu s1)) (inducedDipole (cu s1)) (labQuadrupoles (cu s1))))"

section \<open>Host code of CudaCalcHippoNonbondedForceKernel (AmoebaCudaKernels.cpp)\<close>

text \<open>
  The host code of the HIPPO kernel has no branch that depends on device data, so its
  functions are given by the launches they make, in order.  \<open>hippoInducedPotential\<close>
  carries the argument \<open>optOrder\<close>; the forward and backward transforms stand for the
  \<open>cufftExec\<close> calls of either precision.
\<close>

datatype hippoBuffer =
    hippoInducedFieldBuffer
  | hippoPmeGrid1
  | hippoPmeGrid2

datatype hippoLaunch =
    hippoComputeMoments
  | hippoPmeTransformMultipoles
  | hippoPmeSpreadFixedMultipoles
  | hippoPmeFinishSpreadCharge
  | hippoFftForward
  | hippoPmeConvolution
  | hippoFftBackward
  | hippoPmeFixedPotential
  | hippoPmeTransformPotential pmePotential
  | hippoPmeFixedForce
  | hippoDpmeGridIndex
  | hippoSortGridIndex
  | hippoClearBuffer hippoBuffer
  | hippoDpmeSpreadCharge
  | hippoDpmeFinishSpreadCharge
  | hippoDfftForward
  | hippoDpmeEvalEnergy
  | hippoDpmeConvolution
  | hippoDfftBackward
  | hippoDpmeInterpolateForce
  | hippoFixedField
  | hippoFixedFieldException
  | hippoMutualField
  | hippoMutualFieldException
  | hippoPmeSpreadInducedDipoles
  | hippoInducedPotential int
  | hippoPmeRecordInducedFieldDipoles
  | hippoRecordInducedDipoles
  | hippoInitExtrapolated
  | hippoIterateExtrapolated nat
  | hippoComputeExtrapolated
  | hippoPolarizationEnergy
  | hippoPmeInducedForce
  | hippoPmeSelfEnergy
  | hippoComputeExceptions
  | hippoMapTorque

text \<open>
  The members of the kernel object that the host code tests: \<open>usePME\<close>, the precision,
  the number of extrapolation coefficients, whether the argument lists of the two
  exception field kernels are non-empty, and whether \<open>exceptionAtoms\<close> is initialized.
\<close>

record hippoKernel =
  hippoUsePME :: bool
  hippoUseDoublePrecision :: bool
  hippoMaxExtrapolationOrder :: nat
  fixedFieldExceptionArgsNonEmpty :: bool
  mutualFieldExceptionArgsNonEmpty :: bool
  exceptionAtomsInitialized :: bool

definition hippoComputeInducedField :: "hippoKernel \<Rightarrow> int \<Rightarrow> hippoLaunch list" where
  "hippoComputeInducedField h optOrder =
     [hippoClearBuffer hippoInducedFieldBuffer, hippoMutualField]
     @ (if mutualFieldExceptionArgsNonEmpty h then [hippoMutualFieldException] else [])
     @ (if hippoUsePME h
        then [hippoClearBuffer hippoPmeGrid1, hippoPmeSpreadInducedDipoles]
             @ (if hippoUseDoublePrecision h then [hippoPmeFinishSpreadCharge] else [])
             @ [hippoFftForward, hippoPmeConvolution, hippoFftBackward, hippoInducedPotential optOrder,
                hippoPmeRecordInducedFieldDipoles]
        else [])"

definition hippoComputeExtrapolatedDipoles :: "hippoKernel \<Rightarrow> hippoLaunch list" where
  "hippoComputeExtrapolatedDipoles h =
     [hippoRecordInducedDipoles, hippoInitExtrapolated]
     @ concat (map (\<lambda>order. hippoComputeInducedField h (int order - 1) @ [hippoIterateExtrapolated order])
                   [1..<hippoMaxExtrapolationOrder h])
     @ [hippoComputeExtrapolated]
     @ hippoComputeInducedField h (int (hippoMaxExtrapolationOrder h) - 1)"

definition hippoExecute :: "hippoKernel \<Rightarrow> bool \<Rightarrow> hippoLaunch list" where
  "hippoExecute h includeEnergy =
     [hippoComputeMoments]
     @ (if hippoUsePME h
        then [hippoPmeTransformMultipoles, hippoPmeSpreadFixedMultipoles]
             @ (if hippoUseDoublePrecision h then [hippoPmeFinishSpreadCharge] else [])
             @ [hippoFftForward, hippoPmeConvolution, hippoFftBackward, hippoPmeFixedPotential,
                hippoPmeTransformPotential pmePhi, hippoPmeFixedForce,
                hippoDpmeGridIndex, hippoSortGridIndex, hippoClearBuffer hippoPmeGrid2,
                hippoDpmeSpreadCharge, hippoDpmeFinishSpreadCharge, hippoDfftForward]
             @ (if includeEnergy then [hippoDpmeEvalEnergy] else [])
             @ [hippoDpmeConvolution, hippoDfftBackward, hippoDpmeInterpolateForce]
        else [])
     @ [hippoFixedField]
     @ (if fixedFieldExceptionArgsNonEmpty h then [hippoFixedFieldException] else [])
     @ hippoComputeExtrapolatedDipoles h
     @ (if includeEnergy then [hippoPolarizationEnergy] else [])
     @ (if hippoUsePME h
        then [hippoPmeTransformPotential pmePhidp, hippoPmeInducedForce, hippoPmeSelfEnergy]
        else [])
     @ (if exceptionAtomsInitialized h then [hippoComputeExceptions] else [])"

text \<open>
  \<open>addTorquesToForces\<close> launches the mapping kernel; the post-computation object that
  \<open>initialize\<close> registers with the context calls it and nothing else.
\<close>

definition addTorquesToForces :: "hippoLaunch list" where
  "addTorquesToForces = [hippoMapTorque]"

definition torquePostComputation :: "hippoLaunch list" where
  "torquePostComputation = addTorquesToForces"

section \<open>Auxiliary terms for the equal-alpha limit\<close>








section \<open>Auxiliary predicates for the system moments\<close>



section \<open>Auxiliary terms for the fixed-point accumulation\<close>

text \<open>
  The fixed-point image of a value, the condition under which the cast is defined, and
  what a request contributes to the buffer entry \<open>i\<close>.
\<close>

definition fixedPoint :: "real \<Rightarrow> 64 word" where
  "fixedPoint v = word_of_int (truncateTowardZero (v * 2^32))"

definition representable :: "real \<Rightarrow> bool" where
  "representable v \<longleftrightarrow> - (2^63) \<le> truncateTowardZero (v * 2^32) \<and> truncateTowardZero (v * 2^32) < 2^63"

definition contribution :: "nat \<Rightarrow> nat \<times> real \<Rightarrow> 64 word" where
  "contribution i req = (if fst req = i then fixedPoint (snd req) else 0)"

definition admissible :: "nat \<Rightarrow> nat \<times> real \<Rightarrow> bool" where
  "admissible n req \<longleftrightarrow> fst req < n \<and> representable (snd req)"

section \<open>The zeta coefficient as a closed sum\<close>

text \<open>
  The frequency \<open>k\<close> that the code assigns to the index \<open>idx = i - 1\<close>, and the zeta
  coefficient written with sums over \<open>j = 1 .. 50\<close>, following the description of the
  correction series rather than the loops.
\<close>

definition aliasedFrequency :: "nat \<Rightarrow> nat \<Rightarrow> int" where
  "aliasedFrequency ndata idx = (if idx + 1 > ndata div 2 then int idx - int ndata else int idx)"

definition zetaSeries :: "nat \<Rightarrow> real \<Rightarrow> real" where
  "zetaSeries p f = 1 + (\<Sum>j = 1..50. (f / (f + pi * real j)) ^ p) + (\<Sum>j = 1..50. (f / (f - pi * real j)) ^ p)"

definition zetaSpec :: "nat \<Rightarrow> nat \<Rightarrow> real" where
  "zetaSpec ndata idx =
     (if aliasedFrequency ndata idx = 0 then 1
      else zetaSeries 10 (pi * real_of_int (aliasedFrequency ndata idx) / real ndata)
           / zetaSeries 5 (pi * real_of_int (aliasedFrequency ndata idx) / real ndata))"

section \<open>Auxiliary terms for the induced-dipole loop\<close>

text \<open>
  One pass of the loop body (\<open>computeInducedField\<close>, then \<open>iterateDipolesByDIIS\<close>), the
  state after \<open>k\<close> passes from a given state, and whether the test of pass \<open>k\<close> (counted
  from 0) succeeds.  \<open>diisIterations\<close> counts the passes recorded in a launch history:
  every call of \<open>iterateDipolesByDIIS\<close> launches \<open>solveMatrixKernel\<close> once.
\<close>

definition dipoleIteration :: "'x semantics \<Rightarrow> nat \<Rightarrow> 'x kernelState \<Rightarrow> bool \<times> 'x kernelState" where
  "dipoleIteration run k s = iterateDipolesByDIIS run (int k) (computeInducedField run s)"

fun stateAfter :: "'x semantics \<Rightarrow> nat \<Rightarrow> 'x kernelState \<Rightarrow> 'x kernelState" where
  "stateAfter run 0 s = s"
| "stateAfter run (Suc k) s = snd (dipoleIteration run k (stateAfter run k s))"

definition testPassedAt :: "'x semantics \<Rightarrow> nat \<Rightarrow> 'x kernelState \<Rightarrow> bool" where
  "testPassedAt run k s = fst (dipoleIteration run k (stateAfter run k s))"

definition diisIterations :: "launch list \<Rightarrow> nat" where
  "diisIterations ks = length (filter (\<lambda>k. case k of solveMatrixKernel i \<Rightarrow> True | _ \<Rightarrow> False) ks)"

text \<open>The members that \<open>initialize\<close> sets and the launches do not change.\<close>

definition sameSettings :: "'x kernelState \<Rightarrow> 'x kernelState \<Rightarrow> bool" where
  "sameSettings s t \<longleftrightarrow>
     numAtoms t = numAtoms s \<and> polarizationType t = polarizationType s
     \<and> maxInducedIterations t = maxInducedIterations s \<and> inducedEpsilon t = inducedEpsilon s
     \<and> maxExtrapolationOrder t = maxExtrapolationOrder s \<and> pmeGridInitialized t = pmeGridInitialized s
     \<and> useDoublePrecision t = useDoublePrecision s \<and> gkKernel t = gkKernel s"

text \<open>A one-atom system and kernels that leave the device memory alone, for concrete runs.\<close>

definition exampleDevice :: "unit device" where
  "exampleDevice =
     \<lparr> posq = [make_real4 0 0 0 1], velm = [make_real4 0 0 0 1], lastPositions = [make_real4 0 0 0 1],
       dampingAndThole = [(0, 0)], polarizability = [0], multipoleParticles = [make_int4 0 0 0 0],
       localDipoles = [0, 0, 0], localQuadrupoles = [0, 0, 0, 0, 0],
       labDipoles = [make_real3 0 0 0], labQuadrupoles = [0, 0, 0, 0, 0],
       fixedField = [make_real3 0 0 0], inducedField = [make_real3 0 0 0],
       inducedDipole = [make_real3 0 0 0], extrapolatedDipole = [],
       inducedDipoleErrors = [(0, 0)], potential = [], other = () \<rparr>"

definition exampleKernel :: "unit kernelState" where
  "exampleKernel =
     \<lparr> cu = exampleDevice, pinnedBuffer = [], atomIndex = [0], launched = [],
       numAtoms = 1, paddedNumAtoms = 1, numMultipoles = 1,
       polarizationType = Mutual, maxInducedIterations = 3, inducedEpsilon = 1,
       maxExtrapolationOrder = 0, hasQuadrupoles = False, usePME = False, pmeGridInitialized = False,
       useDoublePrecision = False, gkKernel = False, contextHasGk = False,
       hasInitializedScaleFactors = False, multipolesAreValid = False, moleculesInvalidated = False \<rparr>"

definition slowKernel :: "unit kernelState" where
  "slowKernel = exampleKernel \<lparr> cu := exampleDevice \<lparr> inducedDipoleErrors := [(1, 1)] \<rparr>,
                                maxInducedIterations := 2 \<rparr>"

definition exampleForce :: multipoleForce where
  "exampleForce =
     \<lparr> multipoles = [\<lparr> charge = 1, dipole = [0, 0, 0], quadrupole = [0, 0, 0, 0, 0, 0, 0, 0, 0],
                       axisType = 5, atomZ = -1, atomX = -1, atomY = -1,
                       thole = 0, damping = 0, polarity = 0 \<rparr>],
       forcePolarizationType = Mutual, mutualInducedMaxIterations = 3, mutualInducedTargetEpsilon = 1,
       extrapolationCoefficients = [], nonbondedMethodIsPME = False \<rparr>"

definition idleRun :: "unit semantics" where
  "idleRun k d = d"

section \<open>Auxiliary terms for launch histories\<close>

text \<open>
  \<open>appendsWithoutMapping s t\<close>: the history of \<open>t\<close> is that of \<open>s\<close> followed by launches
  none of which is the torque mapping.  The two example kernels are the one-atom kernel
  with Extrapolated polarization on an initialized PME grid, and with a Generalized
  Kirkwood kernel attached.
\<close>

definition appendsWithoutMapping :: "'x kernelState \<Rightarrow> 'x kernelState \<Rightarrow> bool" where
  "appendsWithoutMapping s t \<longleftrightarrow> (\<exists>ks. launched t = launched s @ ks \<and> mapTorqueKernel \<notin> set ks)"

definition extrapolatedPmeKernel :: "unit kernelState" where
  "extrapolatedPmeKernel = exampleKernel \<lparr> polarizationType := Extrapolated, maxInducedIterations := 0,
       maxExtrapolationOrder := 2, usePME := True, pmeGridInitialized := True \<rparr>"

definition kirkwoodKernel :: "unit kernelState" where
  "kirkwoodKernel = exampleKernel \<lparr> gkKernel := True, contextHasGk := True \<rparr>"

definition exampleHippoKernel :: hippoKernel where
  "exampleHippoKernel = \<lparr> hippoUsePME = True, hippoUseDoublePrecision = False, hippoMaxExtrapolationOrder = 3,
       fixedFieldExceptionArgsNonEmpty = False, mutualFieldExceptionArgsNonEmpty = False,
       exceptionAtomsInitialized = True \<rparr>"

section \<open>Auxiliary terms for parameter updates\<close>



definition chargesWritten :: "multipoleParameters list \<Rightarrow> real4 list \<Rightarrow> real4 list" where
  "chargesWritten ps pos =
     map (\<lambda>i. if i < length ps then setCharge (pos ! i) (charge (ps ! i)) else pos ! i) [0..<length pos]"



section \<open>Auxiliary terms for the cached multipoles\<close>

text \<open>
  \<open>cacheCurrent\<close>: the cached multipoles are marked valid and no atom has moved since the
  positions were recorded.  \<open>validOrder\<close>: the atom order of the context is a permutation
  of the atom indices.  \<open>plus3\<close> adds two vectors by component, as \<open>getTotalDipoles\<close>
  does.  The two example kernels have valid multipoles; in the second one the atom has
  moved since.
\<close>

definition cacheCurrent :: "'x kernelState \<Rightarrow> bool" where
  "cacheCurrent s \<longleftrightarrow>
     multipolesAreValid s \<and> \<not> positionsDiffer (numAtoms s) (posq (cu s)) (lastPositions (cu s))"

definition validOrder :: "nat \<Rightarrow> nat list \<Rightarrow> bool" where
  "validOrder n order \<longleftrightarrow> length order = n \<and> distinct order \<and> list_all (\<lambda>k. k < n) order"

definition plus3 :: "real3 \<Rightarrow> real3 \<Rightarrow> real3" where
  "plus3 a b = make_real3 (x3 a + x3 b) (y3 a + y3 b) (z3 a + z3 b)"

definition validKernel :: "unit kernelState" where
  "validKernel = exampleKernel \<lparr> multipolesAreValid := True \<rparr>"

definition movedKernel :: "unit kernelState" where
  "movedKernel = exampleKernel \<lparr> cu := exampleDevice \<lparr> posq := [make_real4 0 0 2 1] \<rparr>,
                                  multipolesAreValid := True \<rparr>"

section \<open>Direct-field damping\<close>

text \<open>
  C4.  \<open>computeDirectFieldDampingFactors\<close> returns the truncated-exponential screening
  factors in \<open>x = alpha * r\<close>: \<open>fdamp3 = 1 - (1 + x + x\<^sup>2/2) e\<^sup>-\<^sup>x\<close>,
  \<open>fdamp5 = 1 - (1 + x + x\<^sup>2/2 + x\<^sup>3/6) e\<^sup>-\<^sup>x\<close> and
  \<open>fdamp7 = 1 - (1 + x + x\<^sup>2/2 + x\<^sup>3/6 + x\<^sup>4/30) e\<^sup>-\<^sup>x\<close>, for every \<open>alpha\<close> and
  \<open>r\<close>; each factor has one more term than the one before, and the coefficient of
  \<open>x\<^sup>4\<close> is \<open>1/30\<close>.
\<close>

theorem direct_damping_truncated_exponential:
  "computeDirectFieldDampingFactors alpha r =
     (1 - (1 + (alpha*r) + (alpha*r)^2/2) * exp (-(alpha*r)),
      1 - (1 + (alpha*r) + (alpha*r)^2/2 + (alpha*r)^3/6) * exp (-(alpha*r)),
      1 - (1 + (alpha*r) + (alpha*r)^2/2 + (alpha*r)^3/6 + (alpha*r)^4/30) * exp (-(alpha*r)))"
  unfolding computeDirectFieldDampingFactors_def Let_def
  by (simp add: power2_eq_square power3_eq_cube power4_eq_xxxx)

section \<open>Mutual-field damping: symmetry and the equal-alpha limit\<close>



















section \<open>Fixed-point accumulation is independent of the order\<close>

lemma atomicAddFixed_eq:
  "atomicAddFixed req buf =
     (if admissible (length buf) req then Some (buf[fst req := buf ! fst req + fixedPoint (snd req)]) else None)"
  by (simp add: atomicAddFixed_def castLongLong_def admissible_def representable_def fixedPoint_def Let_def)

lemma fold_atomicAddStep_None: "fold atomicAddStep reqs None = None"
  by (induction reqs) (simp_all add: atomicAddStep_def)

lemma runAtomicAdds_char:
  "runAtomicAdds reqs buf =
     (if list_all (admissible (length buf)) reqs
      then Some (map (\<lambda>i. buf ! i + sum_list (map (contribution i) reqs)) [0..<length buf])
      else None)"
proof (induction reqs arbitrary: buf)
  case Nil
  show ?case by (simp add: runAtomicAdds_def map_nth)
next
  case (Cons req reqs)
  show ?case
  proof (cases "admissible (length buf) req")
    case False
    then show ?thesis
      by (simp add: runAtomicAdds_def atomicAddStep_def atomicAddFixed_eq fold_atomicAddStep_None)
  next
    case True
    define buf1 where "buf1 = buf[fst req := buf ! fst req + fixedPoint (snd req)]"
    have l: "length buf1 = length buf" by (simp add: buf1_def)
    have s: "runAtomicAdds (req # reqs) buf = runAtomicAdds reqs buf1"
      using True by (simp add: runAtomicAdds_def atomicAddStep_def atomicAddFixed_eq buf1_def)
    have n: "buf1 ! i + sum_list (map (contribution i) reqs)
             = buf ! i + sum_list (map (contribution i) (req # reqs))" if "i < length buf" for i
      using that by (cases "fst req = i") (simp_all add: buf1_def contribution_def add.assoc)
    show ?thesis
      unfolding s Cons.IH [of buf1] l using True n by (simp cong: map_cong)
  qed
qed

lemma runAtomicAdds_permute:
  assumes "mset reqs' = mset reqs"
  shows "runAtomicAdds reqs' buf = runAtomicAdds reqs buf"
proof -
  have "set reqs' = set reqs" using assms by (rule mset_eq_setD)
  then have a: "list_all (admissible (length buf)) reqs' = list_all (admissible (length buf)) reqs"
    by (simp add: list_all_iff)
  have "sum_list (map (contribution i) reqs') = sum_list (map (contribution i) reqs)" for i
  proof -
    have "mset (map (contribution i) reqs') = mset (map (contribution i) reqs)"
      using assms by simp
    then have "sum_mset (mset (map (contribution i) reqs')) = sum_mset (mset (map (contribution i) reqs))"
      by simp
    then show ?thesis by (simp only: sum_mset_sum_list)
  qed
  then show ?thesis unfolding runAtomicAdds_char a by simp
qed

text \<open>
  C6.  Every write of a field contribution by \<open>computeField\<close> converts the value to a
  64-bit integer by truncating \<open>value * 2\<^sup>3\<^sup>2\<close> and adds it to the buffer entry with the
  wrapping addition of 64-bit integers, with no saturation.  Therefore every order in
  which the atomic additions of the write blocks are executed gives the same buffer as
  the program order, and each entry of the result is the old entry plus the sum of the
  integers contributed to it.
\<close>

theorem field_accumulation_order_independent:
  "atomicAddFixed (i, v) buf =
      (if i < length buf \<and> - (2^63) \<le> truncateTowardZero (v * 2^32) \<and> truncateTowardZero (v * 2^32) < 2^63
       then Some (buf[i := buf ! i + word_of_int (truncateTowardZero (v * 2^32))])
       else None)
   \<and> (mset reqs = mset (concat (map (writeResults TILE_SIZE PADDED_NUM_ATOMS) tiles)) \<longrightarrow>
        runAtomicAdds reqs buf = runAtomicAdds (concat (map (writeResults TILE_SIZE PADDED_NUM_ATOMS) tiles)) buf)
   \<and> (runAtomicAdds reqs buf = Some buf' \<longrightarrow>
        length buf' = length buf \<and>
        (\<forall>k < length buf. buf' ! k = buf ! k + sum_list (map (contribution k) reqs)))"
proof (intro conjI impI)
  show "atomicAddFixed (i, v) buf =
      (if i < length buf \<and> - (2^63) \<le> truncateTowardZero (v * 2^32) \<and> truncateTowardZero (v * 2^32) < 2^63
       then Some (buf[i := buf ! i + word_of_int (truncateTowardZero (v * 2^32))])
       else None)"
    by (simp add: atomicAddFixed_def castLongLong_def Let_def)
next
  assume "mset reqs = mset (concat (map (writeResults TILE_SIZE PADDED_NUM_ATOMS) tiles))"
  then show "runAtomicAdds reqs buf = runAtomicAdds (concat (map (writeResults TILE_SIZE PADDED_NUM_ATOMS) tiles)) buf"
    by (rule runAtomicAdds_permute)
next
  assume r: "runAtomicAdds reqs buf = Some buf'"
  then have b: "buf' = map (\<lambda>i. buf ! i + sum_list (map (contribution i) reqs)) [0..<length buf]"
    unfolding runAtomicAdds_char by (simp split: if_splits)
  show "length buf' = length buf" unfolding b by simp
  show "\<forall>k < length buf. buf' ! k = buf ! k + sum_list (map (contribution k) reqs)"
    unfolding b by simp
qed

text \<open>
  A concrete run: two write blocks on a buffer of six entries (\<open>PADDED_NUM_ATOMS = 2\<close>),
  executed in the reverse of the program order.
\<close>

theorem field_accumulation_order_independent_witness:
  "mset [(5, 0), (3, 0), (1, -1), (4, 4), (2, 0), (0, 1/2), (5, -3), (3, 2), (1, 1)]
     = mset (concat (map (writeResults 2 2)
          [ExclusionTile 0 0 1 (make_real3 1 2 (-3)) (make_real3 0 0 0),
           InteractionTile 0 1 (make_real3 (1/2) 0 4) (make_real3 (-1) 0 0)]))
   \<and> runAtomicAdds [(5, 0), (3, 0), (1, -1), (4, 4), (2, 0), (0, 1/2), (5, -3), (3, 2), (1, 1)] [0, 0, 0, 0, 0, 0]
     = Some [0x80000000, 0, 0, 0x200000000, 0x400000000, 0xFFFFFFFD00000000]
   \<and> runAtomicAdds [(5, 0), (3, 0), (1, -1), (4, 4), (2, 0), (0, 1/2), (5, -3), (3, 2), (1, 1)] [0, 0, 0, 0, 0, 0]
     = runAtomicAdds (concat (map (writeResults 2 2)
          [ExclusionTile 0 0 1 (make_real3 1 2 (-3)) (make_real3 0 0 0),
           InteractionTile 0 1 (make_real3 (1/2) 0 4) (make_real3 (-1) 0 0)])) [0, 0, 0, 0, 0, 0]
   \<and> [0x80000000, 0, 0, 0x200000000, 0x400000000, 0xFFFFFFFD00000000 :: 64 word] ! 5
     = [0, 0, 0, 0, 0, 0] ! 5
       + sum_list (map (contribution 5) [(5, 0), (3, 0), (1, -1), (4, 4), (2, 0), (0, 1/2), (5, -3), (3, 2), (1, 1)])"
proof -
  let ?R = "[(5, 0), (3, 0), (1, -1), (4, 4), (2, 0), (0, 1/2), (5, -3), (3, 2), (1, 1)] :: (nat \<times> real) list"
  let ?T = "[ExclusionTile 0 0 1 (make_real3 1 2 (-3)) (make_real3 0 0 0),
             InteractionTile 0 1 (make_real3 (1/2) 0 4) (make_real3 (-1) 0 0)]"
  let ?B = "[0, 0, 0, 0, 0, 0] :: 64 word list"
  let ?B' = "[0x80000000, 0, 0, 0x200000000, 0x400000000, 0xFFFFFFFD00000000] :: 64 word list"
  have "?R = rev (concat (map (writeResults 2 2) ?T))" by simp
  then have h1: "mset ?R = mset (concat (map (writeResults 2 2) ?T))"
    by (simp only: mset_rev)
  have h2: "runAtomicAdds ?R ?B = Some ?B'"
    by (simp add: runAtomicAdds_def atomicAddStep_def atomicAddFixed_def castLongLong_def
        truncateTowardZero_def Let_def)
  have k: "(5::nat) < length ?B" by simp
  from field_accumulation_order_independent [of 0 0 ?B ?R 2 2 ?T ?B'] h1 h2 k
  show ?thesis by blast
qed

section \<open>B-spline moduli: floor correction and zeta coefficient\<close>

lemma fold_pair_sum:
  fixes f g :: "nat \<Rightarrow> real"
  shows "fold (\<lambda>j s. (fst s + f j, snd s + g j)) [1..<n+1] (a, b)
         = (a + (\<Sum>j = 1..n. f j), b + (\<Sum>j = 1..n. g j))"
proof (induction n)
  case 0
  show ?case by simp
next
  case (Suc n)
  have "[1..<Suc n + 1] = [1..<n+1] @ [Suc n]" by simp
  then show ?case using Suc by (simp add: add.assoc)
qed

lemma zeta_eq: "zeta ndata (Suc idx) = zetaSpec ndata idx"
proof -
  have p: "fold (zetaPlus f) [1..<jcut+1] (a, b)
      = (a + (\<Sum>j = 1..jcut. (f / (f + pi * real j)) ^ PmeOrder), b + (\<Sum>j = 1..jcut. (f / (f + pi * real j)) ^ (2*PmeOrder)))" for f a b
    using fold_pair_sum [of "\<lambda>j. (f / (f + pi * real j)) ^ PmeOrder" "\<lambda>j. (f / (f + pi * real j)) ^ (2*PmeOrder)" jcut a b]
    by (simp add: zetaPlus_def [abs_def] Let_def)
  have m: "fold (zetaMinus f) [1..<jcut+1] (a, b)
      = (a + (\<Sum>j = 1..jcut. (f / (f - pi * real j)) ^ PmeOrder), b + (\<Sum>j = 1..jcut. (f / (f - pi * real j)) ^ (2*PmeOrder)))" for f a b
    using fold_pair_sum [of "\<lambda>j. (f / (f - pi * real j)) ^ PmeOrder" "\<lambda>j. (f / (f - pi * real j)) ^ (2*PmeOrder)" jcut a b]
    by (simp add: zetaMinus_def [abs_def] Let_def)
  have k: "(if Suc idx > ndata div 2 then int (Suc idx) - 1 - int ndata else int (Suc idx) - 1) = aliasedFrequency ndata idx"
    by (simp add: aliasedFrequency_def)
  show ?thesis
    unfolding zeta_def Let_def k p m zetaSpec_def zetaSeries_def
    by (simp add: jcut_def PmeOrder_def add.assoc)
qed

lemma fold_fixInterior:
  assumes "n \<le> length m"
  shows "length (fold fixInterior [1..<n] m) = length m
       \<and> fold fixInterior [1..<n] m ! 0 = m ! 0
       \<and> (\<forall>i\<ge>n. fold fixInterior [1..<n] m ! i = m ! i)
       \<and> (\<forall>i. 1 \<le> i \<and> i < n \<longrightarrow>
             fold fixInterior [1..<n] m ! i
               = (if m ! i < eps then 0.9 * (fold fixInterior [1..<n] m ! (i-1) + m ! (i+1)) else m ! i))"
  using assms
proof (induction n)
  case 0
  show ?case by simp
next
  case (Suc n)
  show ?case
  proof (cases "n = 0")
    case True
    then show ?thesis by simp
  next
    case False
    define r where "r = fold fixInterior [1..<n] m"
    have n: "1 \<le> n" "n < length m" using False Suc.prems by auto
    have ih: "length r = length m" "r ! 0 = m ! 0" "\<And>i. n \<le> i \<Longrightarrow> r ! i = m ! i"
      "\<And>i. 1 \<le> i \<Longrightarrow> i < n \<Longrightarrow> r ! i = (if m ! i < eps then 0.9 * (r ! (i-1) + m ! (i+1)) else m ! i)"
      using Suc.IH n unfolding r_def by auto
    have u: "[1..<Suc n] = [1..<n] @ [n]" using n by simp
    define r' where "r' = fixInterior n r"
    have f: "fold fixInterior [1..<Suc n] m = r'"
      unfolding u r'_def r_def by simp
    have rn: "r ! n = m ! n" "r ! (n+1) = m ! (n+1)" using ih(3) by simp_all
    have r'_def2: "r' = (if m ! n < eps then r[n := 0.9 * (r ! (n-1) + m ! (n+1))] else r)"
      unfolding r'_def fixInterior_def rn ..
    have l: "length r' = length m" unfolding r'_def2 using ih(1) by simp
    have z: "r' ! 0 = m ! 0" unfolding r'_def2 using ih(2) n by simp
    have other: "r' ! i = r ! i" if "i \<noteq> n" for i
      unfolding r'_def2 using that by simp
    have at_n: "r' ! n = (if m ! n < eps then 0.9 * (r ! (n-1) + m ! (n+1)) else m ! n)"
      unfolding r'_def2 using n ih(1) rn by simp
    have above: "r' ! i = m ! i" if "Suc n \<le> i" for i
      using that other [of i] ih(3) [of i] by simp
    have below: "r' ! i = (if m ! i < eps then 0.9 * (r' ! (i-1) + m ! (i+1)) else m ! i)"
      if "1 \<le> i" "i < Suc n" for i
    proof (cases "i = n")
      case True
      have "r' ! (n-1) = r ! (n-1)" using other [of "n-1"] n by simp
      then show ?thesis unfolding True using at_n by simp
    next
      case False
      then have i: "i < n" using that by simp
      have "r' ! (i-1) = r ! (i-1)" using other [of "i-1"] i by simp
      moreover have "r' ! i = r ! i" using other [of i] False by simp
      ultimately show ?thesis using ih(4) [OF that(1) i] by simp
    qed
    show ?thesis unfolding f using l z above below by blast
  qed
qed

lemma fixModuli_char:
  assumes n: "2 \<le> ndata" and len: "length m = ndata"
  shows "length (fixModuli ndata m) = ndata
       \<and> fixModuli ndata m ! 0 = (if m ! 0 < eps then 0.9 * m ! 1 else m ! 0)
       \<and> (\<forall>i. 1 \<le> i \<and> i < ndata - 1 \<longrightarrow>
             fixModuli ndata m ! i
               = (if m ! i < eps then 0.9 * (fixModuli ndata m ! (i-1) + m ! (i+1)) else m ! i))
       \<and> fixModuli ndata m ! (ndata-1)
             = (if m ! (ndata-1) < eps then 0.9 * fixModuli ndata m ! (ndata-2) else m ! (ndata-1))"
proof -
  define m1 where "m1 = (if m ! 0 < eps then m[0 := 0.9 * m ! 1] else m)"
  define m2 where "m2 = fold fixInterior [1..<ndata-1] m1"
  define c where "c = (if m2 ! (ndata-1) < eps then m2[ndata-1 := 0.9 * m2 ! (ndata-2)] else m2)"
  have c: "fixModuli ndata m = c"
    by (simp add: fixModuli_def Let_def c_def m2_def m1_def)
  have l1: "length m1 = ndata" using len by (simp add: m1_def)
  have m1_0: "m1 ! 0 = (if m ! 0 < eps then 0.9 * m ! 1 else m ! 0)"
    using n len by (simp add: m1_def)
  have m1_i: "m1 ! i = m ! i" if "1 \<le> i" for i
    using that by (simp add: m1_def)
  have "ndata - 1 \<le> length m1" using l1 by simp
  from fold_fixInterior [OF this]
  have l2: "length m2 = ndata" and m2_0: "m2 ! 0 = m1 ! 0"
    and m2_hi: "\<And>i. ndata - 1 \<le> i \<Longrightarrow> m2 ! i = m1 ! i"
    and m2_in: "\<And>i. 1 \<le> i \<Longrightarrow> i < ndata - 1 \<Longrightarrow>
         m2 ! i = (if m1 ! i < eps then 0.9 * (m2 ! (i-1) + m1 ! (i+1)) else m1 ! i)"
    unfolding m2_def [symmetric] using l1 by auto
  have m2_last: "m2 ! (ndata-1) = m ! (ndata-1)"
    using m2_hi [of "ndata-1"] m1_i [of "ndata-1"] n by simp
  have c_lo: "c ! i = m2 ! i" if "i < ndata - 1" for i
    using that by (simp add: c_def)
  have c_last: "c ! (ndata-1) = (if m ! (ndata-1) < eps then 0.9 * m2 ! (ndata-2) else m ! (ndata-1))"
    using n l2 m2_last by (simp add: c_def)
  have lc: "length c = ndata" using l2 by (simp add: c_def)
  have c0: "c ! 0 = (if m ! 0 < eps then 0.9 * m ! 1 else m ! 0)"
    using c_lo [of 0] n m2_0 m1_0 by simp
  have c_in: "c ! i = (if m ! i < eps then 0.9 * (c ! (i-1) + m ! (i+1)) else m ! i)"
    if "1 \<le> i" "i < ndata - 1" for i
  proof -
    have "c ! (i-1) = m2 ! (i-1)" using c_lo [of "i-1"] that by simp
    moreover have "c ! i = m2 ! i" using c_lo that by simp
    ultimately show ?thesis
      using m2_in [OF that] m1_i [of i] m1_i [of "i+1"] that by simp
  qed
  have c_l: "c ! (ndata-1) = (if m ! (ndata-1) < eps then 0.9 * c ! (ndata-2) else m ! (ndata-1))"
    using c_last c_lo [of "ndata-2"] n by simp
  show ?thesis unfolding c using lc c0 c_in c_l by blast
qed

lemma applyZeta_char:
  assumes "n \<le> length m"
  shows "length (fold (\<lambda>i m. m[i-1 := m ! (i-1) * zeta ndata i * zeta ndata i]) [1..<n+1] m) = length m
       \<and> (\<forall>idx. fold (\<lambda>i m. m[i-1 := m ! (i-1) * zeta ndata i * zeta ndata i]) [1..<n+1] m ! idx
             = (if idx < n then m ! idx * zeta ndata (Suc idx) * zeta ndata (Suc idx) else m ! idx))"
  using assms
proof (induction n)
  case 0
  show ?case by simp
next
  case (Suc n)
  let ?f = "\<lambda>i m. m[i-1 := m ! (i-1) * zeta ndata i * zeta ndata i]"
  define r where "r = fold ?f [1..<n+1] m"
  have ih: "length r = length m"
     "\<And>idx. r ! idx = (if idx < n then m ! idx * zeta ndata (Suc idx) * zeta ndata (Suc idx) else m ! idx)"
    using Suc.IH Suc.prems unfolding r_def by auto
  have u: "[1..<Suc n + 1] = [1..<n+1] @ [Suc n]" by simp
  have f: "fold ?f [1..<Suc n + 1] m = r[n := r ! n * zeta ndata (Suc n) * zeta ndata (Suc n)]"
    unfolding u r_def by simp
  have n: "n < length r" using Suc.prems ih(1) by simp
  show ?case unfolding f using ih n by (auto simp: nth_list_update)
qed

lemma dftModulus_char:
  "dftModulus ndata b i =
     (\<Sum>j = 1..ndata. b ! j * cos (2 * pi / real ndata * real i * (real j - 1)))\<^sup>2
   + (\<Sum>j = 1..ndata. b ! j * sin (2 * pi / real ndata * real i * (real j - 1)))\<^sup>2"
  using fold_pair_sum [of "\<lambda>j. b ! j * cos (2 * pi / real ndata * real i * (real j - 1))"
      "\<lambda>j. b ! j * sin (2 * pi / real ndata * real i * (real j - 1))" ndata 0 0]
  by (simp add: dftModulus_def dftStep_def [abs_def] Let_def power2_eq_square)

lemma aliasedFrequency_zero: "2 \<le> ndata \<Longrightarrow> idx < ndata \<Longrightarrow> aliasedFrequency ndata idx = 0 \<longleftrightarrow> idx = 0"
  by (auto simp: aliasedFrequency_def)

text \<open>
  C7.  For a grid axis of size \<open>ndata\<close> (at least 2), every modulus is the squared
  magnitude of the discrete Fourier transform of the spline; then (1) every modulus
  below \<open>1e-7\<close> is replaced: index 0 by \<open>0.9 * moduli[1]\<close>, an interior index \<open>i\<close> by
  \<open>0.9 * (moduli[i-1] + moduli[i+1])\<close>, the last index by \<open>0.9 * moduli[ndata-2]\<close>, where
  the array is updated in place from left to right, so that \<open>moduli[i-1]\<close> and
  \<open>moduli[ndata-2]\<close> are the values after their own correction and \<open>moduli[i+1]\<close> is the
  value before; and (2) every modulus is multiplied by \<open>zeta\<^sup>2\<close>, with \<open>zeta = 1\<close> at
  frequency zero (index 0) and \<open>zeta = sum2/sum1\<close> otherwise, both sums running over
  exactly 50 terms on each side.  The floor correction and the zeta factor are stated
  for an arbitrary array \<open>m\<close> of moduli of length \<open>ndata\<close>.
\<close>

theorem bspline_moduli_floor_correction_and_zeta:
  assumes "2 \<le> ndata" and "length m = ndata"
  shows "initializeBsplineModuli ndata maxSize
           = applyZeta ndata (fixModuli ndata (dftModuli ndata (bsplinesData maxSize)))
       \<and> length (dftModuli ndata (bsplinesData maxSize)) = ndata
       \<and> (\<forall>i<ndata. dftModuli ndata (bsplinesData maxSize) ! i =
             (\<Sum>j = 1..ndata. bsplinesData maxSize ! j * cos (2 * pi / real ndata * real i * (real j - 1)))\<^sup>2
           + (\<Sum>j = 1..ndata. bsplinesData maxSize ! j * sin (2 * pi / real ndata * real i * (real j - 1)))\<^sup>2)
       \<and> length (fixModuli ndata m) = ndata
       \<and> fixModuli ndata m ! 0 = (if m ! 0 < 1 / 10^7 then 0.9 * m ! 1 else m ! 0)
       \<and> (\<forall>i. 1 \<le> i \<and> i < ndata - 1 \<longrightarrow>
             fixModuli ndata m ! i
               = (if m ! i < 1 / 10^7 then 0.9 * (fixModuli ndata m ! (i-1) + m ! (i+1)) else m ! i))
       \<and> fixModuli ndata m ! (ndata-1)
             = (if m ! (ndata-1) < 1 / 10^7 then 0.9 * fixModuli ndata m ! (ndata-2) else m ! (ndata-1))
       \<and> length (applyZeta ndata (fixModuli ndata m)) = ndata
       \<and> (\<forall>i<ndata. applyZeta ndata (fixModuli ndata m) ! i = fixModuli ndata m ! i * (zetaSpec ndata i)\<^sup>2)
       \<and> (\<forall>i<ndata. aliasedFrequency ndata i = 0 \<longleftrightarrow> i = 0)"
proof -
  have e: "eps = 1 / 10^7" by (simp add: eps_def)
  note fm = fixModuli_char [OF assms, unfolded e]
  have lf: "length (fixModuli ndata m) = ndata" using fm by blast
  then have "ndata \<le> length (fixModuli ndata m)" by simp
  from applyZeta_char [OF this, of ndata]
  have az: "length (applyZeta ndata (fixModuli ndata m)) = ndata"
    "\<And>i. i < ndata \<Longrightarrow> applyZeta ndata (fixModuli ndata m) ! i = fixModuli ndata m ! i * (zetaSpec ndata i)\<^sup>2"
    unfolding applyZeta_def [symmetric] using lf by (simp_all add: zeta_eq power2_eq_square mult.assoc)
  have d: "dftModuli ndata (bsplinesData maxSize) ! i =
             (\<Sum>j = 1..ndata. bsplinesData maxSize ! j * cos (2 * pi / real ndata * real i * (real j - 1)))\<^sup>2
           + (\<Sum>j = 1..ndata. bsplinesData maxSize ! j * sin (2 * pi / real ndata * real i * (real j - 1)))\<^sup>2"
    if "i < ndata" for i
    using that by (simp add: dftModuli_def dftModulus_char)
  have ld: "length (dftModuli ndata (bsplinesData maxSize)) = ndata" by (simp add: dftModuli_def)
  have i0: "initializeBsplineModuli ndata maxSize
           = applyZeta ndata (fixModuli ndata (dftModuli ndata (bsplinesData maxSize)))"
    by (simp add: initializeBsplineModuli_def)
  show ?thesis
    using i0 ld d fm az aliasedFrequency_zero [OF assms(1)] by blast
qed

text \<open>
  A grid axis of size four whose moduli are below the threshold at the indices 0, 1
  and 3: index 1 takes the already corrected left neighbour.
\<close>

theorem bspline_moduli_floor_correction_and_zeta_witness:
  "(2::nat) \<le> 4 \<and> length [0, 0, 1, 0 :: real] = 4
   \<and> fixModuli 4 [0, 0, 1, 0] = [0, 0.9, 1, 0.9]
   \<and> fixModuli 4 [0, 0, 1, 0] ! 1 = 0.9 * (fixModuli 4 [0, 0, 1, 0] ! 0 + [0, 0, 1, 0] ! 2)
   \<and> applyZeta 4 (fixModuli 4 [0, 0, 1, 0]) ! 1 = 0.9 * (zetaSpec 4 1)\<^sup>2
   \<and> applyZeta 4 (fixModuli 4 [0, 0, 1, 0]) ! 0 = 0
   \<and> zetaSpec 4 0 = 1"
proof -
  have h1: "(2::nat) \<le> 4" by simp
  have h2: "length [0, 0, 1, 0 :: real] = 4" by simp
  have f: "fixModuli 4 [0, 0, 1, 0] = [0, 0.9, 1, 0.9]"
    by (simp add: fixModuli_def fixInterior_def eps_def Let_def upt_rec)
  have z: "zetaSpec 4 0 = 1" by (simp add: zetaSpec_def aliasedFrequency_def)
  have i1: "(1::nat) \<le> 1 \<and> (1::nat) < 4 - 1" and i2: "(1::nat) < 4" "(0::nat) < 4" by simp_all
  note t = bspline_moduli_floor_correction_and_zeta [OF h1 h2, of 4]
  have a: "fixModuli 4 [0, 0, 1, 0] ! 1
      = (if [0, 0, 1, 0] ! 1 < (1::real) / 10^7
         then 0.9 * (fixModuli 4 [0, 0, 1, 0] ! (1-1) + [0, 0, 1, 0] ! (1+1)) else [0, 0, 1, 0] ! 1)"
    using t i1 by blast
  have b: "applyZeta 4 (fixModuli 4 [0, 0, 1, 0]) ! 1 = fixModuli 4 [0, 0, 1, 0] ! 1 * (zetaSpec 4 1)\<^sup>2"
    using t i2(1) by blast
  have c: "applyZeta 4 (fixModuli 4 [0, 0, 1, 0]) ! 0 = fixModuli 4 [0, 0, 1, 0] ! 0 * (zetaSpec 4 0)\<^sup>2"
    using t i2(2) by blast
  show ?thesis using a b c f z by simp
qed

section \<open>Mutual polarization: the iteration cap and the convergence test\<close>

lemma sameSettings_refl: "sameSettings s s"
  by (simp add: sameSettings_def)

lemma sameSettings_trans: "sameSettings s t \<Longrightarrow> sameSettings t u \<Longrightarrow> sameSettings s u"
  by (simp add: sameSettings_def)

lemma exec_sameSettings: "sameSettings s (exec run k s)"
  by (simp add: sameSettings_def exec_def)

lemma fold_exec_sameSettings: "sameSettings s (fold (exec run) ks s)"
proof (induction ks arbitrary: s)
  case Nil
  show ?case by (simp add: sameSettings_refl)
next
  case (Cons k ks)
  show ?case using sameSettings_trans [OF exec_sameSettings Cons] by simp
qed

lemma computeInducedField_sameSettings: "sameSettings s (computeInducedField run s)"
  unfolding computeInducedField_def by (rule fold_exec_sameSettings)

lemma iterateDipolesByDIIS_sameSettings: "sameSettings s (snd (iterateDipolesByDIIS run i s))"
  by (simp add: iterateDipolesByDIIS_def Let_def sameSettings_def exec_def)

lemma dipoleIteration_sameSettings: "sameSettings s (snd (dipoleIteration run k s))"
  unfolding dipoleIteration_def
  by (rule sameSettings_trans [OF computeInducedField_sameSettings iterateDipolesByDIIS_sameSettings])

lemma stateAfter_sameSettings: "sameSettings s (stateAfter run n s)"
proof (induction n)
  case 0
  show ?case by (simp add: sameSettings_refl)
next
  case (Suc n)
  show ?case using sameSettings_trans [OF Suc dipoleIteration_sameSettings] by simp
qed

text \<open>The loop entered at index \<open>i\<close> in the state reached after \<open>i\<close> passes.\<close>

lemma inducedDipoleLoop_from:
  assumes "maxInducedIterations t = M" and "t = stateAfter run i s"
  shows "\<exists>n\<ge>i. int n \<le> max M (int i)
            \<and> inducedDipoleLoop run (int i) t = stateAfter run n s
            \<and> (\<forall>k. i \<le> k \<and> k < n \<longrightarrow> testPassedAt run k s \<longrightarrow> Suc k = n)
            \<and> (int n < M \<longrightarrow> i < n \<and> testPassedAt run (n - 1) s)"
  using assms
proof (induction "nat (M - int i)" arbitrary: i t)
  case 0
  then have "\<not> int i < maxInducedIterations t" by simp
  then have "inducedDipoleLoop run (int i) t = t" by simp
  then show ?case using 0 by (intro exI [of _ i]) auto
next
  case (Suc d)
  then have lt: "int i < maxInducedIterations t" by simp
  define r where "r = dipoleIteration run i t"
  have sa: "snd r = stateAfter run (Suc i) s"
    unfolding r_def using Suc.prems(2) by simp
  have tp: "fst r = testPassedAt run i s"
    unfolding r_def testPassedAt_def using Suc.prems(2) by simp
  have unfold: "inducedDipoleLoop run (int i) t
      = (if fst r then snd r else inducedDipoleLoop run (int (Suc i)) (snd r))"
    using lt by (subst inducedDipoleLoop.simps) (simp add: Let_def r_def dipoleIteration_def add.commute)
  show ?case
  proof (cases "fst r")
    case True
    have "inducedDipoleLoop run (int i) t = stateAfter run (Suc i) s"
      using unfold True sa by simp
    moreover have "int (Suc i) \<le> max M (int i)" using lt Suc.prems(1) by simp
    moreover have "\<forall>k. i \<le> k \<and> k < Suc i \<longrightarrow> testPassedAt run k s \<longrightarrow> Suc k = Suc i" by auto
    moreover have "i < Suc i \<and> testPassedAt run (Suc i - 1) s" using True tp by simp
    ultimately show ?thesis by (intro exI [of _ "Suc i"]) simp
  next
    case False
    have m: "maxInducedIterations (snd r) = M"
      using dipoleIteration_sameSettings [of t run i] Suc.prems(1) by (simp add: sameSettings_def r_def)
    have d: "d = nat (M - int (Suc i))" using Suc.hyps(2) by simp
    from Suc.hyps(1) [OF d m sa]
    obtain n where n: "Suc i \<le> n" "int n \<le> max M (int (Suc i))"
       "inducedDipoleLoop run (int (Suc i)) (snd r) = stateAfter run n s"
       "\<forall>k. Suc i \<le> k \<and> k < n \<longrightarrow> testPassedAt run k s \<longrightarrow> Suc k = n"
       "int n < M \<longrightarrow> Suc i < n \<and> testPassedAt run (n - 1) s"
      by blast
    have a: "inducedDipoleLoop run (int i) t = stateAfter run n s"
      using unfold False n(3) by simp
    have b: "int n \<le> max M (int i)" using n(2) lt Suc.prems(1) by simp
    have c: "\<forall>k. i \<le> k \<and> k < n \<longrightarrow> testPassedAt run k s \<longrightarrow> Suc k = n"
    proof (intro allI impI)
      fix k assume k: "i \<le> k \<and> k < n" and p: "testPassedAt run k s"
      have "k \<noteq> i" using p False tp by auto
      then have "Suc i \<le> k" using k by simp
      then show "Suc k = n" using n(4) k p by blast
    qed
    have e: "int n < M \<longrightarrow> i < n \<and> testPassedAt run (n - 1) s" using n(5) by auto
    show ?thesis using n(1) a b c e by (intro exI [of _ n]) simp
  qed
qed

lemma launched_exec: "launched (exec run k s) = launched s @ [k]"
  by (simp add: exec_def)

lemma launched_fold_exec: "launched (fold (exec run) ks s) = launched s @ ks"
  by (induction ks arbitrary: s) (simp_all add: launched_exec)

lemma diisIterations_append: "diisIterations (ks @ ks') = diisIterations ks + diisIterations ks'"
  by (simp add: diisIterations_def)

lemma diis_computeInducedField:
  "diisIterations (launched (computeInducedField run s)) = diisIterations (launched s)"
  unfolding computeInducedField_def launched_fold_exec diisIterations_append
  by (simp add: diisIterations_def)

lemma diis_iterateDipolesByDIIS:
  "diisIterations (launched (snd (iterateDipolesByDIIS run i s))) = diisIterations (launched s) + 1"
  by (simp add: iterateDipolesByDIIS_def Let_def launched_exec diisIterations_def)

lemma diis_dipoleIteration:
  "diisIterations (launched (snd (dipoleIteration run k s))) = diisIterations (launched s) + 1"
  unfolding dipoleIteration_def by (simp add: diis_iterateDipolesByDIIS diis_computeInducedField)

lemma diis_stateAfter:
  "diisIterations (launched (stateAfter run n s)) = diisIterations (launched s) + n"
  by (induction n) (simp_all add: diis_dipoleIteration)

lemma fold_preserves:
  assumes "\<And>i t. g (f i t) = g t"
  shows "g (fold f xs s) = g s"
  by (induction xs arbitrary: s) (simp_all add: assms)

lemma diis_extrapolationOrderStep:
  "diisIterations (launched (extrapolationOrderStep run order s)) = diisIterations (launched s)"
  by (simp add: extrapolationOrderStep_def launched_exec diisIterations_append diis_computeInducedField)
     (simp add: diisIterations_def)

lemma diis_computeExtrapolatedDipoles:
  "diisIterations (launched (computeExtrapolatedDipoles run s)) = diisIterations (launched s)"
proof -
  have f: "diisIterations (launched (fold (extrapolationOrderStep run) xs t)) = diisIterations (launched t)" for xs t
    by (rule fold_preserves [where g = "\<lambda>t. diisIterations (launched t)"]) (rule diis_extrapolationOrderStep)
  show ?thesis
    by (simp add: computeExtrapolatedDipoles_def Let_def diis_computeInducedField launched_exec
        diisIterations_append f) (simp add: diisIterations_def)
qed

lemma extrapolationOrderStep_sameSettings: "sameSettings s (extrapolationOrderStep run order s)"
  unfolding extrapolationOrderStep_def
  by (rule sameSettings_trans [OF computeInducedField_sameSettings exec_sameSettings])

lemma fold_extrapolationOrderStep_sameSettings:
  "sameSettings s (fold (extrapolationOrderStep run) xs s)"
proof (induction xs arbitrary: s)
  case Nil
  show ?case by (simp add: sameSettings_refl)
next
  case (Cons x xs)
  show ?case using sameSettings_trans [OF extrapolationOrderStep_sameSettings Cons] by simp
qed

lemmas settings_basic =
  exec_sameSettings [unfolded sameSettings_def]
  fold_exec_sameSettings [unfolded sameSettings_def]
  computeInducedField_sameSettings [unfolded sameSettings_def]
  fold_extrapolationOrderStep_sameSettings [unfolded sameSettings_def]
  stateAfter_sameSettings [unfolded sameSettings_def]

lemma computeExtrapolatedDipoles_sameSettings: "sameSettings s (computeExtrapolatedDipoles run s)"
  by (simp add: computeExtrapolatedDipoles_def Let_def sameSettings_def settings_basic)

lemma inducedDipoleLoop_char:
  "\<exists>n. int n \<le> max (maxInducedIterations s) 0
       \<and> inducedDipoleLoop run 0 s = stateAfter run n s
       \<and> (\<forall>k<n. testPassedAt run k s \<longrightarrow> Suc k = n)
       \<and> (int n < maxInducedIterations s \<longrightarrow> 0 < n \<and> testPassedAt run (n - 1) s)"
  using inducedDipoleLoop_from [of s "maxInducedIterations s" run 0 s] by auto

lemma diis_inducedDipoleLoop:
  "diisIterations (launched (inducedDipoleLoop run 0 s))
      \<le> diisIterations (launched s) + nat (maxInducedIterations s)"
proof -
  obtain n where n: "int n \<le> max (maxInducedIterations s) 0" "inducedDipoleLoop run 0 s = stateAfter run n s"
    using inducedDipoleLoop_char [of s run] by blast
  have "n \<le> nat (maxInducedIterations s)" using n(1) by simp
  then show ?thesis unfolding n(2) diis_stateAfter by simp
qed

lemma inducedDipoleLoop_sameSettings: "sameSettings s (inducedDipoleLoop run 0 s)"
proof -
  obtain n where "inducedDipoleLoop run 0 s = stateAfter run n s"
    using inducedDipoleLoop_char [of s run] by blast
  then show ?thesis by (simp add: stateAfter_sameSettings)
qed

lemma diis_executeWithoutPME:
  "diisIterations (launched (executeWithoutPME run s))
      \<le> diisIterations (launched s) + nat (maxInducedIterations s)"
proof -
  define s1 where "s1 = (if gkKernel s then exec run gkComputeBornRadii s else s)"
  define s3 where "s3 = exec run recordInducedDipolesKernel (exec run computeFixedFieldKernel s1)"
  define s4 where "s4 = (if polarizationType s3 = Extrapolated then computeExtrapolatedDipoles run s3 else s3)"
  define s5 where "s5 = inducedDipoleLoop run 0 s4"
  define s6 where "s6 = exec run electrostaticsKernel s5"
  have e: "executeWithoutPME run s = (if gkKernel s6 then exec run gkFinishComputation s6 else s6)"
    by (simp add: executeWithoutPME_def Let_def s1_def s3_def s4_def s5_def s6_def)
  have c1: "diisIterations (launched s1) = diisIterations (launched s)"
    by (simp add: s1_def launched_exec diisIterations_def)
  have c3: "diisIterations (launched s3) = diisIterations (launched s)"
    using c1 by (simp add: s3_def launched_exec diisIterations_def)
  have c4: "diisIterations (launched s4) = diisIterations (launched s)"
    using c3 by (simp add: s4_def diis_computeExtrapolatedDipoles)
  have m3: "sameSettings s s3"
    by (simp add: sameSettings_def s3_def s1_def settings_basic)
  have m4: "sameSettings s s4"
    using m3 computeExtrapolatedDipoles_sameSettings [of s3 run]
    by (simp add: sameSettings_def s4_def)
  have c5: "diisIterations (launched s5) \<le> diisIterations (launched s) + nat (maxInducedIterations s)"
    unfolding s5_def using diis_inducedDipoleLoop [of run s4] c4 m4 by (simp add: sameSettings_def)
  have c6: "diisIterations (launched s6) = diisIterations (launched s5)"
    by (simp add: s6_def launched_exec diisIterations_def)
  have "diisIterations (launched (executeWithoutPME run s)) = diisIterations (launched s6)"
    unfolding e by (simp add: launched_exec diisIterations_def)
  then show ?thesis using c5 c6 by simp
qed

lemma diis_executeWithPME:
  "diisIterations (launched (executeWithPME run s))
      \<le> diisIterations (launched s) + nat (maxInducedIterations s)"
proof -
  define ks where "ks = [pmeTransformMultipolesKernel, pmeSpreadFixedMultipolesKernel]
                 @ (if useDoublePrecision s then [pmeFinishSpreadChargeKernel] else [])
                 @ [computeForwardFFT, pmeConvolutionKernel, computeInverseFFT, pmeFixedPotentialKernel,
                    pmeTransformPotentialKernel pmePhi, pmeFixedForceKernel,
                    computeFixedFieldKernel, recordInducedDipolesKernel,
                    clearBuffer pmeGridBuffer, pmeSpreadInducedDipolesKernel]
                 @ (if useDoublePrecision s then [pmeFinishSpreadChargeKernel] else [])
                 @ [computeForwardFFT, pmeConvolutionKernel, computeInverseFFT, pmeInducedPotentialKernel]"
  define s1 where "s1 = fold (exec run) ks s"
  define s2 where "s2 = (if polarizationType s1 = Extrapolated then computeExtrapolatedDipoles run s1 else s1)"
  define s3 where "s3 = inducedDipoleLoop run 0 s2"
  have e: "executeWithPME run s
     = fold (exec run) [electrostaticsKernel, pmeTransformPotentialKernel pmePhidp, pmeInducedForceKernel] s3"
    by (simp add: executeWithPME_def Let_def s1_def s2_def s3_def ks_def)
  have k: "diisIterations ks = 0" by (simp add: ks_def diisIterations_def)
  have c1: "diisIterations (launched s1) = diisIterations (launched s)"
    by (simp add: s1_def launched_fold_exec diisIterations_append k)
  have c2: "diisIterations (launched s2) = diisIterations (launched s)"
    using c1 by (simp add: s2_def diis_computeExtrapolatedDipoles)
  have m1: "sameSettings s s1" unfolding s1_def by (rule fold_exec_sameSettings)
  have m2: "sameSettings s s2"
    using m1 computeExtrapolatedDipoles_sameSettings [of s1 run]
    by (simp add: sameSettings_def s2_def)
  have c3: "diisIterations (launched s3) \<le> diisIterations (launched s) + nat (maxInducedIterations s)"
    unfolding s3_def using diis_inducedDipoleLoop [of run s2] c2 m2 by (simp add: sameSettings_def)
  have "diisIterations (launched (executeWithPME run s)) = diisIterations (launched s3)"
    unfolding e launched_fold_exec diisIterations_append by (simp add: diisIterations_def)
  then show ?thesis using c3 by simp
qed

lemma diis_execute:
  "diisIterations (launched (execute run s))
      \<le> diisIterations (launched s) + nat (maxInducedIterations s)"
proof -
  define s0 where "s0 = (if \<not> hasInitializedScaleFactors s
               then (initializeScaleFactors run s) \<lparr> gkKernel := (if contextHasGk s then True else gkKernel s) \<rparr>
               else s)"
  define s1 where "s1 = exec run computeMomentsKernel s0"
  define s2 where "s2 = (if \<not> pmeGridInitialized s1 then executeWithoutPME run s1 else executeWithPME run s1)"
  define s3 where "s3 = (if polarizationType s2 = Extrapolated then exec run addExtrapolatedGradientKernel s2 else s2)"
  define s4 where "s4 = exec run mapTorqueKernel s3"
  have e: "execute run s = s4 \<lparr> cu := (cu s4) \<lparr> lastPositions := posq (cu s4) \<rparr>, multipolesAreValid := True \<rparr>"
    by (simp add: execute_def Let_def s0_def s1_def s2_def s3_def s4_def)
  have c0: "diisIterations (launched s0) = diisIterations (launched s)"
    by (simp add: s0_def initializeScaleFactors_def launched_exec diisIterations_def)
  have m0: "maxInducedIterations s0 = maxInducedIterations s"
    by (simp add: s0_def initializeScaleFactors_def exec_def)
  have c1: "diisIterations (launched s1) = diisIterations (launched s)"
    using c0 by (simp add: s1_def launched_exec diisIterations_def)
  have m1: "maxInducedIterations s1 = maxInducedIterations s"
    using m0 by (simp add: s1_def exec_def)
  have c2: "diisIterations (launched s2) \<le> diisIterations (launched s) + nat (maxInducedIterations s)"
    unfolding s2_def using diis_executeWithoutPME [of run s1] diis_executeWithPME [of run s1] c1 m1 by simp
  have c4: "diisIterations (launched s4) = diisIterations (launched s2)"
    by (simp add: s4_def s3_def launched_exec diisIterations_def)
  show ?thesis unfolding e using c2 c4 by simp
qed

lemma fold_plus_fst: "fold (\<lambda>e t. t + fst e) es (a::real) = a + sum_list (map fst es)"
  by (induction es arbitrary: a) (simp_all add: add.assoc)

lemma fold_plus_snd: "fold (\<lambda>e t. t + snd e) es (a::real) = a + sum_list (map snd es)"
  by (induction es arbitrary: a) (simp_all add: add.assoc)

lemma iterateDipolesByDIIS_test:
  "fst (iterateDipolesByDIIS run i s) \<longleftrightarrow>
     dipolesConverged
       (inducedDipoleErrors (cu (exec run (recordDIISDipolesKernel i True)
           (if gkKernel s then exec run (recordDIISDipolesKernel i False) s else s))))
       (numAtoms s) (inducedEpsilon s)"
  by (simp add: iterateDipolesByDIIS_def Let_def)

lemma dipolesConverged_formula:
  "dipolesConverged errors n epsilon \<longleftrightarrow>
     n \<noteq> 0 \<and> 0 \<le> max (sum_list (map fst errors)) (sum_list (map snd errors))
     \<and> 48.033324 * sqrt (max (sum_list (map fst errors)) (sum_list (map snd errors)) / real n) < epsilon"
  by (simp add: dipolesConverged_def Let_def fold_plus_fst fold_plus_snd)

text \<open>
  C1.  With mutual polarization the loop of \<open>execute\<close> makes at most
  \<open>maxInducedIterations\<close> passes (\<open>n\<close> below; in a launch history, at most that many
  more \<open>solveMatrixKernel\<close> launches after \<open>execute\<close> than before).  The test of a pass is
  \<open>48.033324 * sqrt(max(total1, total2) / numAtoms) < inducedEpsilon\<close> on the summed errors
  of the two channels (false when the quotient has no value).  A test that passes ends
  the loop with that pass, and the loop ends before the cap only if the last test
  passed.  If no test passes, the loop makes all its passes and returns the state after
  the last one: the function is total, and no branch raises an exception or reports the
  failure.  \<open>initialize\<close> takes the cap and the target from the force when the
  polarization is mutual.
\<close>

theorem mutual_solver_iteration_cap_and_convergence:
  "(\<exists>n. int n \<le> max (maxInducedIterations s) 0
        \<and> inducedDipoleLoop run 0 s = stateAfter run n s
        \<and> (\<forall>k<n. testPassedAt run k s \<longrightarrow> Suc k = n)
        \<and> (int n < maxInducedIterations s \<longrightarrow> 0 < n \<and> testPassedAt run (n - 1) s))
   \<and> ((\<forall>k. int k < maxInducedIterations t \<longrightarrow> \<not> testPassedAt run k t) \<longrightarrow>
         inducedDipoleLoop run 0 t = stateAfter run (nat (maxInducedIterations t)) t)
   \<and> (fst (iterateDipolesByDIIS run i s) \<longleftrightarrow>
         (let errors = inducedDipoleErrors (cu (exec run (recordDIISDipolesKernel i True)
                          (if gkKernel s then exec run (recordDIISDipolesKernel i False) s else s)));
              total1 = sum_list (map fst errors);
              total2 = sum_list (map snd errors)
          in numAtoms s \<noteq> 0 \<and> 0 \<le> max total1 total2
             \<and> 48.033324 * sqrt (max total1 total2 / real (numAtoms s)) < inducedEpsilon s))
   \<and> diisIterations (launched (execute run s)) \<le> diisIterations (launched s) + nat (maxInducedIterations s)
   \<and> (forcePolarizationType force = Mutual \<longrightarrow>
         maxInducedIterations (initialize force s) = mutualInducedMaxIterations force
         \<and> inducedEpsilon (initialize force s) = mutualInducedTargetEpsilon force)"
proof (intro conjI)
  show "\<exists>n. int n \<le> max (maxInducedIterations s) 0
        \<and> inducedDipoleLoop run 0 s = stateAfter run n s
        \<and> (\<forall>k<n. testPassedAt run k s \<longrightarrow> Suc k = n)
        \<and> (int n < maxInducedIterations s \<longrightarrow> 0 < n \<and> testPassedAt run (n - 1) s)"
    by (rule inducedDipoleLoop_char)
next
  show "(\<forall>k. int k < maxInducedIterations t \<longrightarrow> \<not> testPassedAt run k t) \<longrightarrow>
         inducedDipoleLoop run 0 t = stateAfter run (nat (maxInducedIterations t)) t"
  proof
    assume never: "\<forall>k. int k < maxInducedIterations t \<longrightarrow> \<not> testPassedAt run k t"
    obtain n where n: "int n \<le> max (maxInducedIterations t) 0"
        "inducedDipoleLoop run 0 t = stateAfter run n t"
        "int n < maxInducedIterations t \<longrightarrow> 0 < n \<and> testPassedAt run (n - 1) t"
      using inducedDipoleLoop_char [of t run] by blast
    have "\<not> int n < maxInducedIterations t"
    proof
      assume lt: "int n < maxInducedIterations t"
      then have "0 < n" "testPassedAt run (n - 1) t" using n(3) by simp_all
      moreover have "int (n - 1) < maxInducedIterations t" using lt by simp
      ultimately show False using never by blast
    qed
    then have "n = nat (maxInducedIterations t)" using n(1) by simp
    then show "inducedDipoleLoop run 0 t = stateAfter run (nat (maxInducedIterations t)) t"
      using n(2) by simp
  qed
next
  show "fst (iterateDipolesByDIIS run i s) \<longleftrightarrow>
         (let errors = inducedDipoleErrors (cu (exec run (recordDIISDipolesKernel i True)
                          (if gkKernel s then exec run (recordDIISDipolesKernel i False) s else s)));
              total1 = sum_list (map fst errors);
              total2 = sum_list (map snd errors)
          in numAtoms s \<noteq> 0 \<and> 0 \<le> max total1 total2
             \<and> 48.033324 * sqrt (max total1 total2 / real (numAtoms s)) < inducedEpsilon s)"
    unfolding iterateDipolesByDIIS_test dipolesConverged_formula Let_def ..
next
  show "diisIterations (launched (execute run s)) \<le> diisIterations (launched s) + nat (maxInducedIterations s)"
    by (rule diis_execute)
next
  show "forcePolarizationType force = Mutual \<longrightarrow>
         maxInducedIterations (initialize force s) = mutualInducedMaxIterations force
         \<and> inducedEpsilon (initialize force s) = mutualInducedTargetEpsilon force"
    by (simp add: initialize_def Let_def)
qed

text \<open>
  Two runs with kernels that leave the device memory alone: with zero errors the test
  passes in the first pass of a loop capped at three; with errors \<open>(1, 1)\<close> and the
  target 1 it never passes and the loop makes its two passes.
\<close>

theorem mutual_solver_iteration_cap_and_convergence_witness:
  "inducedDipoleLoop idleRun 0 exampleKernel = stateAfter idleRun 1 exampleKernel
   \<and> testPassedAt idleRun 0 exampleKernel
   \<and> int 1 < maxInducedIterations exampleKernel
   \<and> \<not> testPassedAt idleRun 0 slowKernel \<and> \<not> testPassedAt idleRun 1 slowKernel
   \<and> inducedDipoleLoop idleRun 0 slowKernel = stateAfter idleRun 2 slowKernel
   \<and> diisIterations (launched (execute idleRun exampleKernel)) \<le> 3
   \<and> forcePolarizationType exampleForce = Mutual
   \<and> maxInducedIterations (initialize exampleForce exampleKernel) = 3"
proof -
  note t = mutual_solver_iteration_cap_and_convergence [of exampleKernel idleRun slowKernel 0 exampleForce]
  have m: "maxInducedIterations exampleKernel = 3" by (simp add: exampleKernel_def)
  have p0: "testPassedAt idleRun 0 exampleKernel"
    by (simp add: testPassedAt_def dipoleIteration_def iterateDipolesByDIIS_def computeInducedField_def
        dipolesConverged_def exec_def idleRun_def exampleKernel_def exampleDevice_def Let_def)
  obtain n where n: "inducedDipoleLoop idleRun 0 exampleKernel = stateAfter idleRun n exampleKernel"
      "\<forall>k<n. testPassedAt idleRun k exampleKernel \<longrightarrow> Suc k = n"
      "int n < maxInducedIterations exampleKernel \<longrightarrow> 0 < n \<and> testPassedAt idleRun (n - 1) exampleKernel"
    using t by blast
  have "0 < n" using n(3) m by (cases "n = 0") simp_all
  then have "n = 1" using n(2) p0 by auto
  then have a: "inducedDipoleLoop idleRun 0 exampleKernel = stateAfter idleRun 1 exampleKernel"
    using n(1) by simp
  have m2: "maxInducedIterations slowKernel = 2" by (simp add: slowKernel_def)
  have q0: "\<not> testPassedAt idleRun 0 slowKernel"
    by (simp add: testPassedAt_def dipoleIteration_def iterateDipolesByDIIS_def computeInducedField_def
        dipolesConverged_def exec_def idleRun_def slowKernel_def exampleKernel_def exampleDevice_def Let_def)
  have q1: "\<not> testPassedAt idleRun 1 slowKernel"
    by (simp add: testPassedAt_def dipoleIteration_def iterateDipolesByDIIS_def computeInducedField_def
        dipolesConverged_def exec_def idleRun_def slowKernel_def exampleKernel_def exampleDevice_def Let_def)
  have never: "\<forall>k. int k < maxInducedIterations slowKernel \<longrightarrow> \<not> testPassedAt idleRun k slowKernel"
  proof (intro allI impI)
    fix k assume "int k < maxInducedIterations slowKernel"
    then have "k = 0 \<or> k = 1" using m2 by auto
    then show "\<not> testPassedAt idleRun k slowKernel" using q0 q1 by auto
  qed
  have b: "inducedDipoleLoop idleRun 0 slowKernel = stateAfter idleRun 2 slowKernel"
    using t never m2 by simp
  have c: "diisIterations (launched (execute idleRun exampleKernel)) \<le> 3"
    using t m by (simp add: exampleKernel_def diisIterations_def)
  have f: "forcePolarizationType exampleForce = Mutual" by (simp add: exampleForce_def)
  have d: "maxInducedIterations (initialize exampleForce exampleKernel) = 3"
    using t f by (simp add: exampleForce_def)
  show ?thesis using a p0 m q0 q1 b c f d by simp
qed

section \<open>The torque mapping comes last\<close>

lemma awm_refl: "appendsWithoutMapping s s"
  by (simp add: appendsWithoutMapping_def)

lemma awm_trans: "appendsWithoutMapping s t \<Longrightarrow> appendsWithoutMapping t u \<Longrightarrow> appendsWithoutMapping s u"
  unfolding appendsWithoutMapping_def by fastforce

lemma awm_exec: "k \<noteq> mapTorqueKernel \<Longrightarrow> appendsWithoutMapping s (exec run k s)"
  by (simp add: appendsWithoutMapping_def launched_exec)

lemma awm_fold_exec: "mapTorqueKernel \<notin> set ks \<Longrightarrow> appendsWithoutMapping s (fold (exec run) ks s)"
  by (simp add: appendsWithoutMapping_def launched_fold_exec)

lemma awm_computeInducedField: "appendsWithoutMapping s (computeInducedField run s)"
  unfolding computeInducedField_def by (rule awm_fold_exec) simp

lemma awm_iterateDipolesByDIIS: "appendsWithoutMapping s (snd (iterateDipolesByDIIS run i s))"
  by (simp add: iterateDipolesByDIIS_def Let_def appendsWithoutMapping_def launched_exec)

lemma awm_dipoleIteration: "appendsWithoutMapping s (snd (dipoleIteration run k s))"
  unfolding dipoleIteration_def by (rule awm_trans [OF awm_computeInducedField awm_iterateDipolesByDIIS])

lemma awm_stateAfter: "appendsWithoutMapping s (stateAfter run n s)"
proof (induction n)
  case 0
  show ?case by (simp add: awm_refl)
next
  case (Suc n)
  show ?case using awm_trans [OF Suc awm_dipoleIteration] by simp
qed

lemma awm_inducedDipoleLoop: "appendsWithoutMapping s (inducedDipoleLoop run 0 s)"
proof -
  obtain n where "inducedDipoleLoop run 0 s = stateAfter run n s"
    using inducedDipoleLoop_char [of s run] by blast
  then show ?thesis by (simp add: awm_stateAfter)
qed

lemma awm_extrapolationOrderStep: "appendsWithoutMapping s (extrapolationOrderStep run order s)"
  unfolding extrapolationOrderStep_def
  by (rule awm_trans [OF awm_computeInducedField [of s run]]) (simp add: awm_exec)

lemma awm_fold_extrapolationOrderStep: "appendsWithoutMapping s (fold (extrapolationOrderStep run) xs s)"
proof (induction xs arbitrary: s)
  case Nil
  show ?case by (simp add: awm_refl)
next
  case (Cons x xs)
  show ?case using awm_trans [OF awm_extrapolationOrderStep Cons] by simp
qed

lemma awm_computeExtrapolatedDipoles: "appendsWithoutMapping s (computeExtrapolatedDipoles run s)"
proof -
  define s1 where "s1 = exec run initExtrapolatedKernel s"
  define s2 where "s2 = fold (extrapolationOrderStep run) [1..<maxExtrapolationOrder s] s1"
  define s3 where "s3 = exec run computeExtrapolatedKernel s2"
  have e: "computeExtrapolatedDipoles run s = computeInducedField run s3"
    by (simp add: computeExtrapolatedDipoles_def Let_def s1_def s2_def s3_def)
  have a1: "appendsWithoutMapping s s1" unfolding s1_def by (rule awm_exec) simp
  have a2: "appendsWithoutMapping s1 s2" unfolding s2_def by (rule awm_fold_extrapolationOrderStep)
  have a3: "appendsWithoutMapping s2 s3" unfolding s3_def by (rule awm_exec) simp
  show ?thesis unfolding e
    using awm_trans [OF awm_trans [OF awm_trans [OF a1 a2] a3] awm_computeInducedField] .
qed

text \<open>The launches that \<open>execute\<close> makes between the lab-frame moments and the final mapping.\<close>

lemma launched_executeWithoutPME:
  "\<exists>ks. launched (executeWithoutPME run s) = launched s @ ks \<and> mapTorqueKernel \<notin> set ks
        \<and> electrostaticsKernel \<in> set ks \<and> (gkKernel s \<longrightarrow> gkFinishComputation \<in> set ks)"
proof -
  define s1 where "s1 = (if gkKernel s then exec run gkComputeBornRadii s else s)"
  define s3 where "s3 = exec run recordInducedDipolesKernel (exec run computeFixedFieldKernel s1)"
  define s4 where "s4 = (if polarizationType s3 = Extrapolated then computeExtrapolatedDipoles run s3 else s3)"
  define s5 where "s5 = inducedDipoleLoop run 0 s4"
  define s6 where "s6 = exec run electrostaticsKernel s5"
  have e: "executeWithoutPME run s = (if gkKernel s6 then exec run gkFinishComputation s6 else s6)"
    by (simp add: executeWithoutPME_def Let_def s1_def s3_def s4_def s5_def s6_def)
  have a1: "appendsWithoutMapping s s1" by (simp add: s1_def awm_exec awm_refl)
  have a3: "appendsWithoutMapping s1 s3"
    unfolding s3_def by (rule awm_trans [of _ "exec run computeFixedFieldKernel s1"]) (simp_all add: awm_exec)
  have a4: "appendsWithoutMapping s3 s4" by (simp add: s4_def awm_computeExtrapolatedDipoles awm_refl)
  have a5: "appendsWithoutMapping s4 s5" unfolding s5_def by (rule awm_inducedDipoleLoop)
  have "appendsWithoutMapping s s5"
    using awm_trans [OF awm_trans [OF awm_trans [OF a1 a3] a4] a5] .
  then obtain ks where ks: "launched s5 = launched s @ ks" "mapTorqueKernel \<notin> set ks"
    unfolding appendsWithoutMapping_def by blast
  have g: "gkKernel s6 = gkKernel s"
  proof -
    have "sameSettings s s3" by (simp add: sameSettings_def s3_def s1_def settings_basic)
    then have "sameSettings s s4"
      using computeExtrapolatedDipoles_sameSettings [of s3 run] by (simp add: sameSettings_def s4_def)
    then have "sameSettings s s5"
      using inducedDipoleLoop_sameSettings [of s4 run] by (simp add: sameSettings_def s5_def)
    then show ?thesis by (simp add: sameSettings_def s6_def settings_basic)
  qed
  have l: "launched (executeWithoutPME run s)
      = launched s @ (ks @ [electrostaticsKernel] @ (if gkKernel s then [gkFinishComputation] else []))"
    unfolding e g by (simp add: s6_def launched_exec ks(1))
  show ?thesis
    by (rule exI [of _ "ks @ [electrostaticsKernel] @ (if gkKernel s then [gkFinishComputation] else [])"])
       (use l ks(2) in simp)
qed

lemma launched_executeWithPME:
  "\<exists>ks. launched (executeWithPME run s) = launched s @ ks \<and> mapTorqueKernel \<notin> set ks
        \<and> pmeFixedForceKernel \<in> set ks \<and> electrostaticsKernel \<in> set ks \<and> pmeInducedForceKernel \<in> set ks"
proof -
  define ks0 where "ks0 = [pmeTransformMultipolesKernel, pmeSpreadFixedMultipolesKernel]
                 @ (if useDoublePrecision s then [pmeFinishSpreadChargeKernel] else [])
                 @ [computeForwardFFT, pmeConvolutionKernel, computeInverseFFT, pmeFixedPotentialKernel,
                    pmeTransformPotentialKernel pmePhi, pmeFixedForceKernel,
                    computeFixedFieldKernel, recordInducedDipolesKernel,
                    clearBuffer pmeGridBuffer, pmeSpreadInducedDipolesKernel]
                 @ (if useDoublePrecision s then [pmeFinishSpreadChargeKernel] else [])
                 @ [computeForwardFFT, pmeConvolutionKernel, computeInverseFFT, pmeInducedPotentialKernel]"
  define s1 where "s1 = fold (exec run) ks0 s"
  define s2 where "s2 = (if polarizationType s1 = Extrapolated then computeExtrapolatedDipoles run s1 else s1)"
  define s3 where "s3 = inducedDipoleLoop run 0 s2"
  have e: "executeWithPME run s
     = fold (exec run) [electrostaticsKernel, pmeTransformPotentialKernel pmePhidp, pmeInducedForceKernel] s3"
    by (simp add: executeWithPME_def Let_def s1_def s2_def s3_def ks0_def)
  have k0: "mapTorqueKernel \<notin> set ks0" "pmeFixedForceKernel \<in> set ks0" by (simp_all add: ks0_def)
  have l1: "launched s1 = launched s @ ks0" by (simp add: s1_def launched_fold_exec)
  have a2: "appendsWithoutMapping s1 s2" by (simp add: s2_def awm_computeExtrapolatedDipoles awm_refl)
  have a3: "appendsWithoutMapping s2 s3" unfolding s3_def by (rule awm_inducedDipoleLoop)
  obtain ks where ks: "launched s3 = launched s1 @ ks" "mapTorqueKernel \<notin> set ks"
    using awm_trans [OF a2 a3] unfolding appendsWithoutMapping_def by blast
  have l: "launched (executeWithPME run s)
      = launched s @ (ks0 @ ks @ [electrostaticsKernel, pmeTransformPotentialKernel pmePhidp, pmeInducedForceKernel])"
    unfolding e launched_fold_exec ks(1) l1 by simp
  show ?thesis
    by (rule exI [of _ "ks0 @ ks @ [electrostaticsKernel, pmeTransformPotentialKernel pmePhidp, pmeInducedForceKernel]"])
       (use l k0 ks(2) in simp)
qed

lemma executeWithoutPME_sameSettings: "sameSettings s (executeWithoutPME run s)"
proof -
  define s1 where "s1 = (if gkKernel s then exec run gkComputeBornRadii s else s)"
  define s3 where "s3 = exec run recordInducedDipolesKernel (exec run computeFixedFieldKernel s1)"
  define s4 where "s4 = (if polarizationType s3 = Extrapolated then computeExtrapolatedDipoles run s3 else s3)"
  define s5 where "s5 = inducedDipoleLoop run 0 s4"
  define s6 where "s6 = exec run electrostaticsKernel s5"
  have e: "executeWithoutPME run s = (if gkKernel s6 then exec run gkFinishComputation s6 else s6)"
    by (simp add: executeWithoutPME_def Let_def s1_def s3_def s4_def s5_def s6_def)
  have "sameSettings s s3" by (simp add: sameSettings_def s3_def s1_def settings_basic)
  then have "sameSettings s s4"
    using computeExtrapolatedDipoles_sameSettings [of s3 run] by (simp add: sameSettings_def s4_def)
  then have "sameSettings s s5"
    using inducedDipoleLoop_sameSettings [of s4 run] by (simp add: sameSettings_def s5_def)
  then have "sameSettings s s6" by (simp add: sameSettings_def s6_def settings_basic)
  then show ?thesis unfolding e by (simp add: sameSettings_def settings_basic)
qed

lemma executeWithPME_sameSettings: "sameSettings s (executeWithPME run s)"
proof -
  define ks0 where "ks0 = [pmeTransformMultipolesKernel, pmeSpreadFixedMultipolesKernel]
                 @ (if useDoublePrecision s then [pmeFinishSpreadChargeKernel] else [])
                 @ [computeForwardFFT, pmeConvolutionKernel, computeInverseFFT, pmeFixedPotentialKernel,
                    pmeTransformPotentialKernel pmePhi, pmeFixedForceKernel,
                    computeFixedFieldKernel, recordInducedDipolesKernel,
                    clearBuffer pmeGridBuffer, pmeSpreadInducedDipolesKernel]
                 @ (if useDoublePrecision s then [pmeFinishSpreadChargeKernel] else [])
                 @ [computeForwardFFT, pmeConvolutionKernel, computeInverseFFT, pmeInducedPotentialKernel]"
  define s1 where "s1 = fold (exec run) ks0 s"
  define s2 where "s2 = (if polarizationType s1 = Extrapolated then computeExtrapolatedDipoles run s1 else s1)"
  define s3 where "s3 = inducedDipoleLoop run 0 s2"
  have e: "executeWithPME run s
     = fold (exec run) [electrostaticsKernel, pmeTransformPotentialKernel pmePhidp, pmeInducedForceKernel] s3"
    by (simp add: executeWithPME_def Let_def s1_def s2_def s3_def ks0_def)
  have "sameSettings s s1" unfolding s1_def by (rule fold_exec_sameSettings)
  then have "sameSettings s s2"
    using computeExtrapolatedDipoles_sameSettings [of s1 run] by (simp add: sameSettings_def s2_def)
  then have "sameSettings s s3"
    using inducedDipoleLoop_sameSettings [of s2 run] by (simp add: sameSettings_def s3_def)
  then show ?thesis
    unfolding e by (simp add: sameSettings_def settings_basic)
qed

lemma launched_execute:
  "\<exists>pre. launched (execute run s) = launched s @ pre @ [mapTorqueKernel]
        \<and> mapTorqueKernel \<notin> set pre
        \<and> electrostaticsKernel \<in> set pre
        \<and> (pmeGridInitialized s \<longrightarrow> pmeFixedForceKernel \<in> set pre \<and> pmeInducedForceKernel \<in> set pre)
        \<and> (\<not> pmeGridInitialized s \<and> gkKernel s \<longrightarrow> gkFinishComputation \<in> set pre)
        \<and> (polarizationType s = Extrapolated \<longrightarrow> pre \<noteq> [] \<and> last pre = addExtrapolatedGradientKernel)"
proof -
  define s0 where "s0 = (if \<not> hasInitializedScaleFactors s
               then (initializeScaleFactors run s) \<lparr> gkKernel := (if contextHasGk s then True else gkKernel s) \<rparr>
               else s)"
  define s1 where "s1 = exec run computeMomentsKernel s0"
  define s2 where "s2 = (if \<not> pmeGridInitialized s1 then executeWithoutPME run s1 else executeWithPME run s1)"
  define s3 where "s3 = (if polarizationType s2 = Extrapolated then exec run addExtrapolatedGradientKernel s2 else s2)"
  define s4 where "s4 = exec run mapTorqueKernel s3"
  have e: "execute run s = s4 \<lparr> cu := (cu s4) \<lparr> lastPositions := posq (cu s4) \<rparr>, multipolesAreValid := True \<rparr>"
    by (simp add: execute_def Let_def s0_def s1_def s2_def s3_def s4_def)
  define k0 where "k0 = (if \<not> hasInitializedScaleFactors s then [uploadScaleFactors] else []) @ [computeMomentsKernel]"
  have l1: "launched s1 = launched s @ k0"
    by (simp add: s1_def s0_def k0_def initializeScaleFactors_def launched_exec)
  have p1: "pmeGridInitialized s1 = pmeGridInitialized s" "polarizationType s1 = polarizationType s"
    by (simp_all add: s1_def s0_def initializeScaleFactors_def exec_def)
  have g1: "gkKernel s \<longrightarrow> gkKernel s1"
    by (simp add: s1_def s0_def initializeScaleFactors_def exec_def)
  obtain k2 where k2: "launched s2 = launched s1 @ k2" "mapTorqueKernel \<notin> set k2"
      "electrostaticsKernel \<in> set k2"
      "pmeGridInitialized s \<longrightarrow> pmeFixedForceKernel \<in> set k2 \<and> pmeInducedForceKernel \<in> set k2"
      "\<not> pmeGridInitialized s \<and> gkKernel s \<longrightarrow> gkFinishComputation \<in> set k2"
  proof (cases "pmeGridInitialized s")
    case True
    then have "s2 = executeWithPME run s1" by (simp add: s2_def p1)
    then show ?thesis using launched_executeWithPME [of run s1] that True by auto
  next
    case False
    then have "s2 = executeWithoutPME run s1" by (simp add: s2_def p1)
    then show ?thesis using launched_executeWithoutPME [of run s1] that False g1 by auto
  qed
  have p2: "polarizationType s2 = polarizationType s"
    using executeWithoutPME_sameSettings [of s1 run] executeWithPME_sameSettings [of s1 run] p1
    by (simp add: s2_def sameSettings_def)
  define k3 where "k3 = (if polarizationType s = Extrapolated then [addExtrapolatedGradientKernel] else [])"
  have l3: "launched s3 = launched s2 @ k3" by (simp add: s3_def k3_def p2 launched_exec)
  have l: "launched (execute run s) = launched s @ (k0 @ k2 @ k3) @ [mapTorqueKernel]"
    unfolding e by (simp add: s4_def launched_exec l3 k2(1) l1)
  have n: "mapTorqueKernel \<notin> set (k0 @ k2 @ k3)" using k2(2) by (simp add: k0_def k3_def)
  have x: "polarizationType s = Extrapolated \<longrightarrow> (k0 @ k2 @ k3) \<noteq> [] \<and> last (k0 @ k2 @ k3) = addExtrapolatedGradientKernel"
    by (simp add: k3_def)
  show ?thesis
    by (rule exI [of _ "k0 @ k2 @ k3"]) (use l n x k2 in auto)
qed

lemma hippoMapTorque_notin_hippoComputeInducedField:
  "hippoMapTorque \<notin> set (hippoComputeInducedField h optOrder)"
  by (simp add: hippoComputeInducedField_def)

lemma hippoMapTorque_notin_hippoComputeExtrapolatedDipoles:
  "hippoMapTorque \<notin> set (hippoComputeExtrapolatedDipoles h)"
  by (simp add: hippoComputeExtrapolatedDipoles_def hippoMapTorque_notin_hippoComputeInducedField)

lemma hippoMapTorque_notin_hippoExecute:
  "hippoMapTorque \<notin> set (hippoExecute h includeEnergy)"
  by (simp add: hippoExecute_def hippoMapTorque_notin_hippoComputeExtrapolatedDipoles)

lemma hippoExecute_torque_kernels:
  "hippoUsePME h \<Longrightarrow> hippoPmeFixedForce \<in> set (hippoExecute h includeEnergy)
       \<and> hippoPmeInducedForce \<in> set (hippoExecute h includeEnergy)
       \<and> hippoPmeSelfEnergy \<in> set (hippoExecute h includeEnergy)"
  by (simp add: hippoExecute_def)

lemma hippoExecute_exceptions:
  "exceptionAtomsInitialized h \<Longrightarrow> hippoComputeExceptions \<in> set (hippoExecute h includeEnergy)"
  by (simp add: hippoExecute_def)

text \<open>
  Claim C5.  Every run of \<open>execute\<close> of the AMOEBA multipole kernel appends to the launch
  history a sequence that ends with the torque mapping kernel and contains it nowhere
  else.  The launches that take the torque buffer come before it: the direct-space
  electrostatics kernel always, the PME fixed-multipole and induced-dipole force kernels
  when the PME grid is in use, the Generalized Kirkwood computation when there is no grid
  and a Generalized Kirkwood kernel is attached; with Extrapolated polarization the launch
  right before the mapping is the one that adds the extrapolated gradient to the forces.
  (The AMOEBA host code has no launch of its own for the self-energy torque.)
  \<open>execute\<close> of the HIPPO kernel launches no torque mapping at all, while it does launch
  the PME fixed-multipole, induced-dipole and self-energy kernels and the exception
  kernel, which take the torque buffer; its mapping is the post-computation, which is the
  single launch of the mapping kernel.
\<close>

theorem torque_mapping_runs_last:
  "(\<exists>pre. launched (execute run s) = launched s @ pre @ [mapTorqueKernel]
        \<and> mapTorqueKernel \<notin> set pre
        \<and> electrostaticsKernel \<in> set pre
        \<and> (pmeGridInitialized s \<longrightarrow> pmeFixedForceKernel \<in> set pre \<and> pmeInducedForceKernel \<in> set pre)
        \<and> (\<not> pmeGridInitialized s \<and> gkKernel s \<longrightarrow> gkFinishComputation \<in> set pre)
        \<and> (polarizationType s = Extrapolated \<longrightarrow> pre \<noteq> [] \<and> last pre = addExtrapolatedGradientKernel))
   \<and> hippoMapTorque \<notin> set (hippoExecute h includeEnergy)
   \<and> (hippoUsePME h \<longrightarrow> hippoPmeFixedForce \<in> set (hippoExecute h includeEnergy)
         \<and> hippoPmeInducedForce \<in> set (hippoExecute h includeEnergy)
         \<and> hippoPmeSelfEnergy \<in> set (hippoExecute h includeEnergy))
   \<and> (exceptionAtomsInitialized h \<longrightarrow> hippoComputeExceptions \<in> set (hippoExecute h includeEnergy))
   \<and> torquePostComputation = [hippoMapTorque]"
  using launched_execute [of run s] hippoMapTorque_notin_hippoExecute [of h includeEnergy]
    hippoExecute_torque_kernels [of h includeEnergy] hippoExecute_exceptions [of h includeEnergy]
  by (simp add: torquePostComputation_def addTorquesToForces_def)

text \<open>
  The theorem at the two example kernels and the example HIPPO kernel: with Extrapolated
  polarization on a PME grid the history ends with the gradient addition followed by the
  mapping, after both PME force kernels; with a Generalized Kirkwood kernel and no grid
  the Generalized Kirkwood computation precedes the mapping.
\<close>

theorem torque_mapping_runs_last_witness:
  "(\<exists>pre. launched (execute idleRun extrapolatedPmeKernel) = pre @ [addExtrapolatedGradientKernel, mapTorqueKernel]
        \<and> mapTorqueKernel \<notin> set pre \<and> electrostaticsKernel \<in> set pre
        \<and> pmeFixedForceKernel \<in> set pre \<and> pmeInducedForceKernel \<in> set pre)
   \<and> (\<exists>pre. launched (execute idleRun kirkwoodKernel) = pre @ [mapTorqueKernel]
        \<and> mapTorqueKernel \<notin> set pre \<and> gkFinishComputation \<in> set pre)
   \<and> hippoUsePME exampleHippoKernel \<and> exceptionAtomsInitialized exampleHippoKernel
   \<and> hippoPmeSelfEnergy \<in> set (hippoExecute exampleHippoKernel True)
   \<and> hippoComputeExceptions \<in> set (hippoExecute exampleHippoKernel True)"
proof -
  note a = torque_mapping_runs_last [of idleRun extrapolatedPmeKernel exampleHippoKernel True]
  note b = torque_mapping_runs_last [of idleRun kirkwoodKernel exampleHippoKernel True]
  have pa: "pmeGridInitialized extrapolatedPmeKernel" "polarizationType extrapolatedPmeKernel = Extrapolated"
      "launched extrapolatedPmeKernel = []"
    by (simp_all add: extrapolatedPmeKernel_def exampleKernel_def)
  have pb: "\<not> pmeGridInitialized kirkwoodKernel" "gkKernel kirkwoodKernel" "launched kirkwoodKernel = []"
    by (simp_all add: kirkwoodKernel_def exampleKernel_def)
  have ph: "hippoUsePME exampleHippoKernel" "exceptionAtomsInitialized exampleHippoKernel"
    by (simp_all add: exampleHippoKernel_def)
  obtain pre where pre: "launched (execute idleRun extrapolatedPmeKernel) = pre @ [mapTorqueKernel]"
      "mapTorqueKernel \<notin> set pre" "electrostaticsKernel \<in> set pre"
      "pmeFixedForceKernel \<in> set pre" "pmeInducedForceKernel \<in> set pre"
      "pre \<noteq> []" "last pre = addExtrapolatedGradientKernel"
    using a pa by auto
  define front where "front = butlast pre"
  have f: "pre = front @ [addExtrapolatedGradientKernel]"
    using pre(6,7) append_butlast_last_id [of pre] by (simp add: front_def)
  have c1: "\<exists>pre. launched (execute idleRun extrapolatedPmeKernel) = pre @ [addExtrapolatedGradientKernel, mapTorqueKernel]
        \<and> mapTorqueKernel \<notin> set pre \<and> electrostaticsKernel \<in> set pre
        \<and> pmeFixedForceKernel \<in> set pre \<and> pmeInducedForceKernel \<in> set pre"
    using pre(1-5) unfolding f by (intro exI [of _ front]) simp
  have c2: "\<exists>pre. launched (execute idleRun kirkwoodKernel) = pre @ [mapTorqueKernel]
        \<and> mapTorqueKernel \<notin> set pre \<and> gkFinishComputation \<in> set pre"
    using b pb by auto
  show ?thesis using c1 c2 a ph by simp
qed

section \<open>Parameter updates\<close>





lemma fold_setCharge:
  "n \<le> length ps \<Longrightarrow>
   fold (\<lambda>i buf. buf[i := setCharge (buf ! i) (charge (ps ! i))]) [0..<n] pos
     = map (\<lambda>i. if i < n then setCharge (pos ! i) (charge (ps ! i)) else pos ! i) [0..<length pos]"
proof (induction n)
  case 0
  show ?case by (simp add: map_nth)
next
  case (Suc n)
  then have ih: "fold (\<lambda>i buf. buf[i := setCharge (buf ! i) (charge (ps ! i))]) [0..<n] pos
     = map (\<lambda>i. if i < n then setCharge (pos ! i) (charge (ps ! i)) else pos ! i) [0..<length pos]"
    by simp
  show ?case
    unfolding upt_Suc_append [OF le0] fold_append comp_def ih
    by (intro nth_equalityI) (auto simp add: nth_list_update less_Suc_eq)
qed




lemma copyParametersToContext_success:
  assumes "length (multipoles force) = numAtoms s"
      and "hasQuadrupoles s \<or> \<not> anyNonZero (localQuadrupolesVec (multipoles force))"
  shows "\<exists>t. copyParametersToContext force s = Inr t
        \<and> \<not> multipolesAreValid t \<and> moleculesInvalidated t
        \<and> dampingAndThole (cu t) = padTo (numAtoms s) (paddedNumAtoms s) 1 (0, 0) (dampingAndTholeVec (multipoles force))
        \<and> polarizability (cu t) = padTo (numAtoms s) (paddedNumAtoms s) 1 0 (polarizabilityVec (multipoles force))
        \<and> multipoleParticles (cu t)
            = padTo (numAtoms s) (paddedNumAtoms s) 1 (make_int4 0 0 0 0) (multipoleParticlesVec (multipoles force))
        \<and> localDipoles (cu t) = padTo (numAtoms s) (paddedNumAtoms s) 3 0 (localDipolesVec (multipoles force))
        \<and> localQuadrupoles (cu t) = padTo (numAtoms s) (paddedNumAtoms s) 5 0 (localQuadrupolesVec (multipoles force))
        \<and> posq (cu t) = chargesWritten (multipoles force) (posq (cu s))"
  using assms fold_setCharge [of "length (multipoles force)" "multipoles force" "posq (cu s)"]
  by (auto simp add: copyParametersToContext_def Let_def chargesWritten_def)



section \<open>The accessors validate the cache\<close>

lemma positionsDiffer_iff:
  "positionsDiffer n p q \<longleftrightarrow>
     (\<exists>i<n. x4 (p ! i) \<noteq> x4 (q ! i) \<or> y4 (p ! i) \<noteq> y4 (q ! i) \<or> z4 (p ! i) \<noteq> z4 (q ! i))"
  by (auto simp add: positionsDiffer_def list_ex_iff)

lemma positionsDiffer_same: "\<not> positionsDiffer n p p"
  by (simp add: positionsDiffer_iff)

lemma invalid_unchanged:
  "\<not> multipolesAreValid s \<Longrightarrow> s \<lparr> multipolesAreValid := False \<rparr> = s"
  by (cases s) simp

lemma ensureMultipolesValid_cases:
  "ensureMultipolesValid calc s = (if cacheCurrent s then s else calc (s \<lparr> multipolesAreValid := False \<rparr>))"
proof (cases "multipolesAreValid s")
  case True
  then show ?thesis by (simp add: ensureMultipolesValid_def cacheCurrent_def Let_def)
next
  case False
  then have "ensureMultipolesValid calc s = calc s"
    by (simp add: ensureMultipolesValid_def Let_def)
  also have "\<dots> = calc (s \<lparr> multipolesAreValid := False \<rparr>)"
    using invalid_unchanged [OF False] by simp
  finally show ?thesis using False by (simp add: cacheCurrent_def)
qed

lemma cacheCurrent_execute: "cacheCurrent (execute run s)"
  by (simp add: execute_def Let_def cacheCurrent_def positionsDiffer_same)

lemma lastPositions_execute: "lastPositions (cu (execute run s)) = posq (cu (execute run s))"
  by (simp add: execute_def Let_def)

lemma cacheCurrent_ensureMultipolesValid: "cacheCurrent (ensureMultipolesValid (execute run) s)"
  by (simp add: ensureMultipolesValid_cases cacheCurrent_execute)

lemma length_scatterByOrder: "length (scatterByOrder n order f out) = length out"
proof (induction n)
  case 0
  show ?case by (simp add: scatterByOrder_def)
next
  case (Suc n)
  then show ?case by (simp add: scatterByOrder_def)
qed

lemma scatterByOrder_Suc:
  "scatterByOrder (Suc n) order f out = (scatterByOrder n order f out)[order ! n := f n]"
  by (simp add: scatterByOrder_def)

lemma scatterByOrder_nth:
  assumes "distinct order" "n \<le> length order" "\<forall>i<n. order ! i < length out" "i < n"
  shows "scatterByOrder n order f out ! (order ! i) = f i"
  using assms(2-4)
proof (induction n)
  case 0
  then show ?case by simp
next
  case (Suc n)
  show ?case
  proof (cases "i = n")
    case True
    have "order ! n < length (scatterByOrder n order f out)"
      using Suc.prems(2) by (simp add: length_scatterByOrder)
    then show ?thesis unfolding scatterByOrder_Suc True by simp
  next
    case False
    then have i: "i < n" using Suc.prems(3) by simp
    have "order ! i \<noteq> order ! n"
      using assms(1) Suc.prems(1) i by (simp add: nth_eq_iff_index_eq)
    then have "scatterByOrder (Suc n) order f out ! (order ! i) = scatterByOrder n order f out ! (order ! i)"
      unfolding scatterByOrder_Suc by simp
    also have "\<dots> = f i" using Suc.IH Suc.prems i by simp
    finally show ?thesis .
  qed
qed

lemma length_resize: "length (resize n z xs) = n"
  by (simp add: resize_def)

lemma scatter_resized:
  assumes "validOrder n order" "i < n"
  shows "scatterByOrder n order f (resize n z out) ! (order ! i) = f i"
proof -
  have o: "distinct order" "length order = n" "\<forall>k<n. order ! k < n"
    using assms(1) by (simp_all add: validOrder_def list_all_length)
  show ?thesis
    by (rule scatterByOrder_nth) (use o assms(2) in \<open>simp_all add: length_resize\<close>)
qed

lemma real3_rebuilt: "make_real3 (x3 v) (y3 v) (z3 v) = v"
  by (cases v) simp

lemma getInducedDipoles_reads:
  "fst (getInducedDipoles calc s d) = ensureMultipolesValid calc s
   \<and> length (snd (getInducedDipoles calc s d)) = numAtoms (ensureMultipolesValid calc s)
   \<and> (validOrder (numAtoms (ensureMultipolesValid calc s)) (atomIndex (ensureMultipolesValid calc s))
        \<and> i < numAtoms (ensureMultipolesValid calc s) \<longrightarrow>
       snd (getInducedDipoles calc s d) ! (atomIndex (ensureMultipolesValid calc s) ! i)
         = inducedDipole (cu (ensureMultipolesValid calc s)) ! i)"
  by (simp add: getInducedDipoles_def Let_def length_scatterByOrder length_resize scatter_resized real3_rebuilt)

lemma getLabFramePermanentDipoles_reads:
  "fst (getLabFramePermanentDipoles calc s d) = ensureMultipolesValid calc s
   \<and> length (snd (getLabFramePermanentDipoles calc s d)) = numAtoms (ensureMultipolesValid calc s)
   \<and> (validOrder (numAtoms (ensureMultipolesValid calc s)) (atomIndex (ensureMultipolesValid calc s))
        \<and> i < numAtoms (ensureMultipolesValid calc s) \<longrightarrow>
       snd (getLabFramePermanentDipoles calc s d) ! (atomIndex (ensureMultipolesValid calc s) ! i)
         = labDipoles (cu (ensureMultipolesValid calc s)) ! i)"
  by (simp add: getLabFramePermanentDipoles_def Let_def length_scatterByOrder length_resize scatter_resized
      real3_rebuilt)

lemma getTotalDipoles_reads:
  "fst (getTotalDipoles calc s d) = ensureMultipolesValid calc s
   \<and> length (snd (getTotalDipoles calc s d)) = numAtoms (ensureMultipolesValid calc s)
   \<and> (validOrder (numAtoms (ensureMultipolesValid calc s)) (atomIndex (ensureMultipolesValid calc s))
        \<and> i < numAtoms (ensureMultipolesValid calc s) \<longrightarrow>
       snd (getTotalDipoles calc s d) ! (atomIndex (ensureMultipolesValid calc s) ! i)
         = plus3 (labDipoles (cu (ensureMultipolesValid calc s)) ! i)
                 (inducedDipole (cu (ensureMultipolesValid calc s)) ! i))"
  by (simp add: getTotalDipoles_def Let_def length_scatterByOrder length_resize scatter_resized plus3_def)

lemma getSystemMultipoleMoments_reads:
  "getSystemMultipoleMoments calc s =
     (ensureMultipolesValid calc s,
      computeSystemMultipoleMoments (numAtoms (ensureMultipolesValid calc s))
        (posq (cu (ensureMultipolesValid calc s))) (velm (cu (ensureMultipolesValid calc s)))
        (labDipoles (cu (ensureMultipolesValid calc s))) (inducedDipole (cu (ensureMultipolesValid calc s)))
        (labQuadrupoles (cu (ensureMultipolesValid calc s))))"
  by (simp add: getSystemMultipoleMoments_def Let_def)

lemma getElectrostaticPotential_launches:
  "launched (fst (getElectrostaticPotential calc run s grid))
     = launched (ensureMultipolesValid calc s)
       @ [computePotentialKernel (map (\<lambda>g. make_real4 (x3 g) (y3 g) (z3 g) 0) grid)]"
  by (simp add: getElectrostaticPotential_def Let_def launched_exec)

lemma copyParametersToContext_invalidates:
  "copyParametersToContext force s = Inr u \<Longrightarrow> \<not> multipolesAreValid u"
  by (auto simp add: copyParametersToContext_def Let_def split: if_splits)

text \<open>
  Claim C9.  \<open>ensureMultipolesValid\<close> returns the kernel as it is when the cached
  multipoles are marked valid and every atom has the \<open>x\<close>, \<open>y\<close> and \<open>z\<close> recorded at the
  end of the last force evaluation; in every other case (some coordinate of some atom
  differs, or the multipoles are marked invalid, as they are after a successful
  parameter update) it clears the flag and calls the force evaluation of the context.
  When that evaluation runs \<open>execute\<close> of this kernel, the cache is current afterwards
  and the recorded positions are the positions of the device.  Each of the five
  accessors works on the kernel that \<open>ensureMultipolesValid\<close> returns: the three dipole
  accessors return one entry per atom, the entry of atom \<open>order[i]\<close> being entry \<open>i\<close> of
  the cached array of that kernel (the sum of the two arrays for the total dipoles), the
  system moments are computed from its arrays, and the potential kernel is launched on
  it.
\<close>

theorem accessors_revalidate_cache:
  fixes calc :: "'x kernelState \<Rightarrow> 'x kernelState" and s :: "'x kernelState"
  defines "t \<equiv> ensureMultipolesValid calc s"
  shows
  "t = (if cacheCurrent s then s else calc (s \<lparr> multipolesAreValid := False \<rparr>))
   \<and> (cacheCurrent s \<longleftrightarrow>
        multipolesAreValid s
        \<and> (\<forall>i<numAtoms s. x4 (posq (cu s) ! i) = x4 (lastPositions (cu s) ! i)
                           \<and> y4 (posq (cu s) ! i) = y4 (lastPositions (cu s) ! i)
                           \<and> z4 (posq (cu s) ! i) = z4 (lastPositions (cu s) ! i)))
   \<and> (\<forall>u. copyParametersToContext force s = Inr u \<longrightarrow> \<not> cacheCurrent u)
   \<and> cacheCurrent (ensureMultipolesValid (execute run) s)
   \<and> (\<not> cacheCurrent s \<longrightarrow>
        lastPositions (cu (ensureMultipolesValid (execute run) s))
          = posq (cu (ensureMultipolesValid (execute run) s)))
   \<and> fst (getInducedDipoles calc s d) = t
   \<and> fst (getLabFramePermanentDipoles calc s d) = t
   \<and> fst (getTotalDipoles calc s d) = t
   \<and> getSystemMultipoleMoments calc s
        = (t, computeSystemMultipoleMoments (numAtoms t) (posq (cu t)) (velm (cu t))
                (labDipoles (cu t)) (inducedDipole (cu t)) (labQuadrupoles (cu t)))
   \<and> launched (fst (getElectrostaticPotential calc run s grid))
        = launched t @ [computePotentialKernel (map (\<lambda>g. make_real4 (x3 g) (y3 g) (z3 g) 0) grid)]
   \<and> length (snd (getInducedDipoles calc s d)) = numAtoms t
   \<and> length (snd (getLabFramePermanentDipoles calc s d)) = numAtoms t
   \<and> length (snd (getTotalDipoles calc s d)) = numAtoms t
   \<and> (validOrder (numAtoms t) (atomIndex t) \<longrightarrow>
        (\<forall>i<numAtoms t.
            snd (getInducedDipoles calc s d) ! (atomIndex t ! i) = inducedDipole (cu t) ! i
          \<and> snd (getLabFramePermanentDipoles calc s d) ! (atomIndex t ! i) = labDipoles (cu t) ! i
          \<and> snd (getTotalDipoles calc s d) ! (atomIndex t ! i)
              = plus3 (labDipoles (cu t) ! i) (inducedDipole (cu t) ! i)))"
proof -
  have c1: "t = (if cacheCurrent s then s else calc (s \<lparr> multipolesAreValid := False \<rparr>))"
    unfolding t_def by (rule ensureMultipolesValid_cases)
  have c2: "cacheCurrent s \<longleftrightarrow>
        multipolesAreValid s
        \<and> (\<forall>i<numAtoms s. x4 (posq (cu s) ! i) = x4 (lastPositions (cu s) ! i)
                           \<and> y4 (posq (cu s) ! i) = y4 (lastPositions (cu s) ! i)
                           \<and> z4 (posq (cu s) ! i) = z4 (lastPositions (cu s) ! i))"
    unfolding cacheCurrent_def positionsDiffer_iff by blast
  have c3: "\<forall>u. copyParametersToContext force s = Inr u \<longrightarrow> \<not> cacheCurrent u"
    using copyParametersToContext_invalidates [of force s] by (simp add: cacheCurrent_def)
  have c4: "cacheCurrent (ensureMultipolesValid (execute run) s)"
    by (rule cacheCurrent_ensureMultipolesValid)
  have c5: "\<not> cacheCurrent s \<longrightarrow>
        lastPositions (cu (ensureMultipolesValid (execute run) s))
          = posq (cu (ensureMultipolesValid (execute run) s))"
    by (simp add: ensureMultipolesValid_cases lastPositions_execute)
  have c6: "validOrder (numAtoms t) (atomIndex t) \<longrightarrow>
        (\<forall>i<numAtoms t.
            snd (getInducedDipoles calc s d) ! (atomIndex t ! i) = inducedDipole (cu t) ! i
          \<and> snd (getLabFramePermanentDipoles calc s d) ! (atomIndex t ! i) = labDipoles (cu t) ! i
          \<and> snd (getTotalDipoles calc s d) ! (atomIndex t ! i)
              = plus3 (labDipoles (cu t) ! i) (inducedDipole (cu t) ! i))"
    unfolding t_def
    using getInducedDipoles_reads [of calc s d] getLabFramePermanentDipoles_reads [of calc s d]
      getTotalDipoles_reads [of calc s d]
    by blast
  have c7: "fst (getInducedDipoles calc s d) = t" "fst (getLabFramePermanentDipoles calc s d) = t"
      "fst (getTotalDipoles calc s d) = t"
      "length (snd (getInducedDipoles calc s d)) = numAtoms t"
      "length (snd (getLabFramePermanentDipoles calc s d)) = numAtoms t"
      "length (snd (getTotalDipoles calc s d)) = numAtoms t"
    unfolding t_def
    using getInducedDipoles_reads [of calc s d] getLabFramePermanentDipoles_reads [of calc s d]
      getTotalDipoles_reads [of calc s d]
    by blast+
  have c8: "getSystemMultipoleMoments calc s
        = (t, computeSystemMultipoleMoments (numAtoms t) (posq (cu t)) (velm (cu t))
                (labDipoles (cu t)) (inducedDipole (cu t)) (labQuadrupoles (cu t)))"
    unfolding t_def by (rule getSystemMultipoleMoments_reads)
  have c9: "launched (fst (getElectrostaticPotential calc run s grid))
        = launched t @ [computePotentialKernel (map (\<lambda>g. make_real4 (x3 g) (y3 g) (z3 g) 0) grid)]"
    unfolding t_def by (rule getElectrostaticPotential_launches)
  show ?thesis
    by (intro conjI c1 c2 c3 c4 c5 c6 c7 c8 c9)
qed

text \<open>
  The theorem on the two example kernels.  On the kernel whose atom has not moved
  nothing is evaluated and the accessor returns the cached dipole of the atom; on the
  kernel whose atom has moved the force evaluation runs with the flag cleared and leaves
  a current cache; after a parameter update of the first kernel its cache is not
  current.
\<close>

theorem accessors_revalidate_cache_witness:
  "cacheCurrent validKernel
   \<and> ensureMultipolesValid (execute idleRun) validKernel = validKernel
   \<and> validOrder (numAtoms validKernel) (atomIndex validKernel)
   \<and> snd (getInducedDipoles (execute idleRun) validKernel []) ! 0 = make_real3 0 0 0
   \<and> \<not> cacheCurrent movedKernel
   \<and> ensureMultipolesValid (execute idleRun) movedKernel
        = execute idleRun (movedKernel \<lparr> multipolesAreValid := False \<rparr>)
   \<and> cacheCurrent (ensureMultipolesValid (execute idleRun) movedKernel)
   \<and> lastPositions (cu (ensureMultipolesValid (execute idleRun) movedKernel))
        = posq (cu (ensureMultipolesValid (execute idleRun) movedKernel))
   \<and> (\<exists>u. copyParametersToContext exampleForce validKernel = Inr u \<and> \<not> cacheCurrent u)"
proof -
  note a = accessors_revalidate_cache [where calc = "execute idleRun" and s = validKernel
      and run = idleRun and force = exampleForce and d = "[]"]
  note b = accessors_revalidate_cache [where calc = "execute idleRun" and s = movedKernel
      and run = idleRun and force = exampleForce and d = "[]"]
  have v: "cacheCurrent validKernel"
    by (simp add: cacheCurrent_def positionsDiffer_iff validKernel_def exampleKernel_def exampleDevice_def)
  have m: "\<not> cacheCurrent movedKernel"
    by (simp add: cacheCurrent_def positionsDiffer_iff movedKernel_def exampleKernel_def exampleDevice_def)
  have e: "ensureMultipolesValid (execute idleRun) validKernel = validKernel"
    using a v by simp
  have o: "validOrder (numAtoms validKernel) (atomIndex validKernel)" "0 < numAtoms validKernel"
      "atomIndex validKernel ! 0 = 0" "inducedDipole (cu validKernel) ! 0 = make_real3 0 0 0"
    by (simp_all add: validOrder_def validKernel_def exampleKernel_def exampleDevice_def)
  have r: "snd (getInducedDipoles (execute idleRun) validKernel []) ! 0 = make_real3 0 0 0"
    using a o unfolding e by fastforce
  have f: "ensureMultipolesValid (execute idleRun) movedKernel
        = execute idleRun (movedKernel \<lparr> multipolesAreValid := False \<rparr>)"
    using b m by simp
  have g: "cacheCurrent (ensureMultipolesValid (execute idleRun) movedKernel)"
      "lastPositions (cu (ensureMultipolesValid (execute idleRun) movedKernel))
        = posq (cu (ensureMultipolesValid (execute idleRun) movedKernel))"
    using b m by blast+
  have "length (multipoles exampleForce) = numAtoms validKernel"
      "\<not> anyNonZero (localQuadrupolesVec (multipoles exampleForce))"
    by (simp_all add: exampleForce_def validKernel_def exampleKernel_def anyNonZero_def localQuadrupolesVec_def)
  then obtain u where u: "copyParametersToContext exampleForce validKernel = Inr u"
    using copyParametersToContext_success [of exampleForce validKernel] by blast
  then have "\<not> cacheCurrent u" using a by blast
  then have h: "\<exists>u. copyParametersToContext exampleForce validKernel = Inr u \<and> \<not> cacheCurrent u"
    using u by blast
  show ?thesis using v e o(1) r m f g h by blast
qed

section \<open>System multipole moments: symmetry and zero trace\<close>









end
